theory Spec2Isabelle
  imports Complex_Main
begin

section \<open>Values and parameters\<close>

text \<open>
  A JavaScript value of type \<open>Nullable<T>\<close> is \<open>undefined\<close>, \<open>null\<close> or a \<open>T\<close>.
  The test \<open>v == null\<close> holds of the first two, \<open>v === w\<close> is equality of the model.
\<close>

datatype 'a nullable = Undefined | Null | Val 'a

fun isNullish :: "'a nullable \<Rightarrow> bool" where
  "isNullish (Val v) = False"
| "isNullish Undefined = True"
| "isNullish Null = True"

text \<open>The test \<open>!value?.length\<close> on a nullable string.\<close>

fun noLength :: "string nullable \<Rightarrow> bool" where
  "noLength (Val s) = (s = [])"
| "noLength Undefined = True"
| "noLength Null = True"

datatype error = RationalError | InflateError | DataError | ParseUrlError

text \<open>A field that is a \<open>number | Rational\<close>.\<close>

datatype numval = Num int | Rat rat

text \<open>The result of a diff codec: a string, or the pair \<open>[bare, hashed]\<close>.\<close>

datatype zres = Str string | Pair string string

section \<open>The data model\<close>

text \<open>\<open>URLSearchParams\<close> and \<open>ParamMap\<close>: keys with repeated values, in order.\<close>

type_synonym params = "(string \<times> string) list"

definition getAll :: "params \<Rightarrow> string \<Rightarrow> string list" where
  "getAll ps k = map snd (filter (\<lambda>kv. fst kv = k) ps)"

definition get :: "params \<Rightarrow> string \<Rightarrow> string nullable" where
  "get ps k = (case getAll ps k of [] \<Rightarrow> Null | v # _ \<Rightarrow> Val v)"

record ModuleSettings =
  m_count :: "rat nullable"
  m_id :: "string nullable"

record BeaconSettings =
  b_count :: "rat nullable"
  b_modules :: "ModuleSettings list nullable"
  b_id :: "string nullable"
  b_total :: "rat nullable"

record Objective =
  o_id :: string
  targetId :: string
  o_value :: rat
  o_unit :: int
  o_type :: int
  machineId :: "string nullable"
  modules :: "ModuleSettings list nullable"
  beacons :: "BeaconSettings list nullable"
  overclock :: "rat nullable"
  fuelId :: "string nullable"

record ObjectivesState =
  ids :: "string list"
  index :: nat
  entities :: "string \<rightharpoonup> Objective"

record ModHash =
  mh_items :: "string list"
  mh_recipes :: "string list"
  mh_machines :: "string list"
  mh_fuels :: "string list"

record ZipMachineSettings =
  moduleMap :: "string \<Rightarrow> int list nullable"
  beaconMap :: "string \<Rightarrow> int list nullable"

text \<open>
  The constants of \<open>~/models\<close> and the services that \<open>ZipService\<close> and \<open>RouterService\<close>
  import are not part of the sources at hand; they are parameters of the model. The two
  separators are single characters, the sentinels are strings. \<open>nToId\<close> and \<open>idToN\<close> are
  the id compaction of \<open>CompressionService\<close>; \<open>idToN\<close> is taken as a total function into
  the naturals. Numbers of the settings are enum members and indices, modelled as
  integers; \<open>Rational\<close> values are the rationals, with \<open>eq\<close> their equality and
  \<open>rational.one\<close> the number 1; \<open>rational(text)\<close> may throw. \<open>deflate\<close> is the external
  compressor, \<open>searchToString\<close> is \<open>URLSearchParams.toString\<close>.
\<close>

record env =
  ZNULL :: string
  ZEMPTY :: string
  ZTRUE :: string
  ZFALSE :: string
  ZARRAYSEP :: char
  ZFIELDSEP :: char
  MIN_ZIP :: nat
  nToId :: "int \<Rightarrow> string"
  idToN :: "string \<Rightarrow> nat"
  numToString :: "int \<Rightarrow> string"
  Number :: "string \<Rightarrow> int"
  ratToString :: "rat \<Rightarrow> string"
  rational :: "string \<Rightarrow> error + rat"
  deflate :: "string \<Rightarrow> string"
  searchToString :: "params \<Rightarrow> string"
  decodeURIComponent :: "string \<Rightarrow> string"
  QObjective :: string
  QZip :: string
  QVersion :: string
  version :: string
  ObjectiveUnit_Items :: int
  ObjectiveType_Output :: int
  isRecipeObjective :: "Objective \<Rightarrow> bool"

section \<open>Arrays and strings of the platform\<close>

text \<open>\<open>Array.prototype.join\<close> with a one-character separator.\<close>

fun join_sep :: "char \<Rightarrow> string list \<Rightarrow> string" where
  "join_sep c [] = []"
| "join_sep c [x] = x"
| "join_sep c (x # y # ys) = x @ c # join_sep c (y # ys)"

text \<open>\<open>String.prototype.split\<close> with a one-character separator: the empty string splits
  into one empty piece.\<close>

fun split_sep :: "char \<Rightarrow> string \<Rightarrow> string list" where
  "split_sep c [] = [[]]"
| "split_sep c (x # xs) =
     (if x = c then [] # split_sep c xs
      else (case split_sep c xs of [] \<Rightarrow> [[x]] | y # ys \<Rightarrow> (x # y) # ys))"

text \<open>\<open>Array.prototype.slice(start, end)\<close> for indices that are not negative.\<close>

definition slice :: "'a list \<Rightarrow> nat \<Rightarrow> nat \<Rightarrow> 'a list" where
  "slice xs s e = take (e - s) (drop s xs)"

text \<open>\<open>arr[n]\<close>: \<open>undefined\<close> out of range.\<close>

definition at_index :: "'a list \<Rightarrow> nat \<Rightarrow> 'a nullable" where
  "at_index xs n = (if n < length xs then Val (xs ! n) else Undefined)"

text \<open>\<open>Array.prototype.indexOf\<close>: the first position of the element, or \<open>-1\<close>.\<close>

fun indexOf :: "'a list \<Rightarrow> 'a \<Rightarrow> int" where
  "indexOf [] v = -1"
| "indexOf (x # xs) v =
     (if x = v then 0 else (let i = indexOf xs v in if i < 0 then -1 else i + 1))"

section \<open>ZipService: the subset range codec\<close>

text \<open>The two \<open>result.push\<close> lines that flush a run: \<open>start\<close> alone, or
  \<open>start + ZARRAYSEP + end\<close>.\<close>

definition flushRun :: "env \<Rightarrow> string list \<Rightarrow> string \<Rightarrow> string option \<Rightarrow> string list" where
  "flushRun E result st en =
     (case en of None \<Rightarrow> result @ [st] | Some e \<Rightarrow> result @ [st @ ZARRAYSEP E # e])"

text \<open>The body of the \<open>hash.forEach((h, i) => ...)\<close> callback of \<open>zipDiffSubset\<close>, on the
  variables \<open>result\<close>, \<open>start\<close> and \<open>end\<close> that it updates.\<close>

type_synonym scan = "string list \<times> string option \<times> string option"

fun scanStep :: "env \<Rightarrow> string set \<Rightarrow> string set \<Rightarrow> string \<Rightarrow> nat \<Rightarrow> scan \<Rightarrow> scan" where
  "scanStep E allSet v h i (result, st, en) =
     (if h \<notin> allSet then (result, st, en)
      else if h \<in> v then
        (let j = nToId E (int i) in
         (case st of None \<Rightarrow> (result, Some j, en) | Some s \<Rightarrow> (result, st, Some j)))
      else (case st of
              Some s \<Rightarrow> (flushRun E result s en, None, None)
            | None \<Rightarrow> (result, st, en)))"

fun scanFrom :: "env \<Rightarrow> string set \<Rightarrow> string set \<Rightarrow> string list \<Rightarrow> nat \<Rightarrow> scan \<Rightarrow> scan" where
  "scanFrom E allSet v [] i s = s"
| "scanFrom E allSet v (h # hs) i s = scanFrom E allSet v hs (Suc i) (scanStep E allSet v h i s)"

text \<open>The flush of a run that is still open after the scan.\<close>

fun finishRun :: "env \<Rightarrow> scan \<Rightarrow> string list" where
  "finishRun E (result, None, en) = result"
| "finishRun E (result, Some s, en) = flushRun E result s en"

text \<open>The range tokens of a selection that is not empty: the scan from position 0 with
  no run open, and the last flush.\<close>

definition subsetRanges :: "env \<Rightarrow> string set \<Rightarrow> string list \<Rightarrow> string list \<Rightarrow> string list" where
  "subsetRanges E v all hash = finishRun E (scanFrom E (set all) v hash 0 ([], None, None))"

text \<open>\<open>zipDiffSubset(value, init, all, hash = all)\<close>; an omitted \<open>hash\<close> is \<open>None\<close>.\<close>

definition zipDiffSubset ::
  "env \<Rightarrow> string set nullable \<Rightarrow> string set nullable \<Rightarrow> string list \<Rightarrow> string list option \<Rightarrow> string" where
  "zipDiffSubset E value init all hashArg =
     (let hash = (case hashArg of None \<Rightarrow> all | Some h \<Rightarrow> h) in
      case value of
        Val v \<Rightarrow>
          if v = {} then (if init = Val {} then [] else ZEMPTY E)
          else join_sep (ZFIELDSEP E) (subsetRanges E v all hash)
      | _ \<Rightarrow> if isNullish init then [] else ZNULL E)"

text \<open>The slice of one range token in \<open>parseSubset\<close>: the token is split at the array
  separator, the first two pieces are expanded to \<open>start\<close> and \<open>end\<close>.\<close>

definition rangeSlice :: "env \<Rightarrow> string list \<Rightarrow> string \<Rightarrow> string list" where
  "rangeSlice E hash rng =
     (case map (idToN E) (split_sep (ZARRAYSEP E) rng) of
        [] \<Rightarrow> []
      | [st] \<Rightarrow> slice hash st (st + 1)
      | st # en # _ \<Rightarrow> slice hash st (en + 1))"

definition parseSubset :: "env \<Rightarrow> string nullable \<Rightarrow> string list \<Rightarrow> string set nullable" where
  "parseSubset E value hash =
     (case value of
        Val s \<Rightarrow>
          if s = [] then Undefined
          else if s = ZNULL E then Null
          else if s = ZEMPTY E then Val {}
          else Val (fold (\<lambda>rng result. result \<union> set (rangeSlice E hash rng))
                      (split_sep (ZFIELDSEP E) s) {})
      | _ \<Rightarrow> Undefined)"

section \<open>ZipService: fields, primitives and diffs\<close>

text \<open>\<open>replace(/\**$/, '')\<close>: the trailing run of \<open>*\<close> characters is removed.\<close>

definition stripStars :: "string \<Rightarrow> string" where
  "stripStars s = rev (dropWhile (\<lambda>c. c = CHR ''*'') (rev s))"

definition zipFields :: "env \<Rightarrow> string list \<Rightarrow> string" where
  "zipFields E flds = stripStars (join_sep (ZFIELDSEP E) flds)"

definition zipString :: "string nullable \<Rightarrow> string" where
  "zipString value = (case value of Val v \<Rightarrow> v | _ \<Rightarrow> [])"

definition zipNumber :: "env \<Rightarrow> numval nullable \<Rightarrow> string" where
  "zipNumber E value =
     (case value of Val (Num n) \<Rightarrow> numToString E n | Val (Rat r) \<Rightarrow> ratToString E r | _ \<Rightarrow> [])"

text \<open>\<open>zipArray\<close> on an array of strings; an array of numbers joins the texts of its
  numbers.\<close>

definition zipArray :: "env \<Rightarrow> string list nullable \<Rightarrow> string" where
  "zipArray E value =
     (case value of
        Val xs \<Rightarrow> if length xs \<noteq> 0 then join_sep (ZARRAYSEP E) xs else ZEMPTY E
      | _ \<Rightarrow> [])"

definition numTexts :: "env \<Rightarrow> int list nullable \<Rightarrow> string list nullable" where
  "numTexts E value = (case value of Val xs \<Rightarrow> Val (map (numToString E) xs) | Null \<Rightarrow> Null | Undefined \<Rightarrow> Undefined)"

definition zipNString :: "env \<Rightarrow> string nullable \<Rightarrow> string list \<Rightarrow> string" where
  "zipNString E value hash = (case value of Val v \<Rightarrow> nToId E (indexOf hash v) | _ \<Rightarrow> [])"

definition zipDiffString :: "env \<Rightarrow> string nullable \<Rightarrow> string nullable \<Rightarrow> string list \<Rightarrow> zres" where
  "zipDiffString E value init hash =
     (if value = init then Str []
      else (case value of Val v \<Rightarrow> Pair v (nToId E (indexOf hash v)) | _ \<Rightarrow> Str (ZNULL E)))"

definition zipDiffNumber :: "env \<Rightarrow> int nullable \<Rightarrow> int nullable \<Rightarrow> string" where
  "zipDiffNumber E value init =
     (if value = init then []
      else (case value of Val n \<Rightarrow> numToString E n | _ \<Rightarrow> ZNULL E))"

definition zipDiffRational :: "env \<Rightarrow> rat nullable \<Rightarrow> rat nullable \<Rightarrow> string" where
  "zipDiffRational E value init =
     (if (case value of
            Val v \<Rightarrow> (case init of Val b \<Rightarrow> v = b | _ \<Rightarrow> False)
          | _ \<Rightarrow> isNullish init)
      then []
      else (case value of Val v \<Rightarrow> ratToString E v | _ \<Rightarrow> ZNULL E))"

definition zipDiffBool :: "env \<Rightarrow> bool \<Rightarrow> bool \<Rightarrow> string" where
  "zipDiffBool E value init = (if value = init then [] else if value then ZTRUE E else ZFALSE E)"

text \<open>The text \<open>zVal\<close> or \<open>zInit\<close> that \<open>zipDiffIndices\<close> and \<open>zipDiffArray\<close> compare.\<close>

definition zArrayText :: "env \<Rightarrow> string list nullable \<Rightarrow> string" where
  "zArrayText E value =
     (case value of
        Val xs \<Rightarrow> if length xs > 0 then join_sep (ZARRAYSEP E) xs else ZEMPTY E
      | _ \<Rightarrow> ZNULL E)"

definition zipDiffIndices :: "env \<Rightarrow> int list nullable \<Rightarrow> int list nullable \<Rightarrow> zres" where
  "zipDiffIndices E value init =
     (let zVal = zArrayText E (numTexts E value); zInit = zArrayText E (numTexts E init)
      in if zVal = zInit then Str [] else Str zVal)"

definition zipDiffArray :: "env \<Rightarrow> string list nullable \<Rightarrow> string list nullable \<Rightarrow> string list \<Rightarrow> zres" where
  "zipDiffArray E value init hash =
     (let zVal = zArrayText E value; zInit = zArrayText E init
      in if zVal = zInit then Str []
         else (case value of
                 Val xs \<Rightarrow> Pair zVal (join_sep (ZARRAYSEP E) (map (\<lambda>v. nToId E (indexOf hash v)) xs))
               | _ \<Rightarrow> Str (ZNULL E)))"

section \<open>ZipService: parsers\<close>

text \<open>The test \<open>!value?.length || value === ZNULL\<close> that opens the scalar parsers.\<close>

definition absent :: "env \<Rightarrow> string nullable \<Rightarrow> bool" where
  "absent E value = (noLength value \<or> value = Val (ZNULL E))"

text \<open>\<open>parseString(value)\<close> with no dictionary, the call \<open>parseNString\<close> makes.\<close>

definition parseStringBare :: "env \<Rightarrow> string nullable \<Rightarrow> string nullable" where
  "parseStringBare E value = (if absent E value then Undefined else value)"

definition parseNString :: "env \<Rightarrow> string nullable \<Rightarrow> string list \<Rightarrow> string nullable" where
  "parseNString E value hash =
     (case parseStringBare E value of
        Val v \<Rightarrow> at_index hash (idToN E v)
      | Null \<Rightarrow> Null
      | Undefined \<Rightarrow> Undefined)"

definition parseString :: "env \<Rightarrow> string nullable \<Rightarrow> string list option \<Rightarrow> string nullable" where
  "parseString E value hashArg =
     (case hashArg of Some hash \<Rightarrow> parseNString E value hash | None \<Rightarrow> parseStringBare E value)"

definition parseBool :: "env \<Rightarrow> string nullable \<Rightarrow> bool nullable" where
  "parseBool E value = (if absent E value then Undefined else Val (value = Val (ZTRUE E)))"

definition parseNNumber :: "env \<Rightarrow> string nullable \<Rightarrow> int nullable" where
  "parseNNumber E value =
     (case value of
        Val v \<Rightarrow> if absent E value then Undefined else Val (int (idToN E v))
      | _ \<Rightarrow> Undefined)"

definition parseNumber :: "env \<Rightarrow> string nullable \<Rightarrow> bool \<Rightarrow> int nullable" where
  "parseNumber E value useNNumber =
     (if useNNumber then parseNNumber E value
      else (case value of
              Val v \<Rightarrow> if absent E value then Undefined else Val (Number E v)
            | _ \<Rightarrow> Undefined))"

definition parseRational :: "env \<Rightarrow> string nullable \<Rightarrow> error + rat nullable" where
  "parseRational E value =
     (case value of
        Val v \<Rightarrow>
          if absent E value then Inr Undefined
          else (case rational E v of Inl e \<Rightarrow> Inl e | Inr r \<Rightarrow> Inr (Val r))
      | _ \<Rightarrow> Inr Undefined)"

text \<open>\<open>parseArray(value)\<close> with no dictionary, the call \<open>parseNArray\<close> makes.\<close>

definition parseArrayBare :: "env \<Rightarrow> string nullable \<Rightarrow> string list nullable" where
  "parseArrayBare E value =
     (case value of
        Val v \<Rightarrow>
          if absent E value then Undefined
          else Val (if v = ZEMPTY E then [] else split_sep (ZARRAYSEP E) v)
      | _ \<Rightarrow> Undefined)"

text \<open>The elements of the array that \<open>parseNArray\<close> returns are \<open>hash[idToN(a)]\<close>, which is
  \<open>undefined\<close> out of range.\<close>

definition parseNArray :: "env \<Rightarrow> string nullable \<Rightarrow> string list \<Rightarrow> string nullable list nullable" where
  "parseNArray E value hash =
     (case parseArrayBare E value of
        Val v \<Rightarrow> Val (map (\<lambda>a. at_index hash (idToN E a)) v)
      | Null \<Rightarrow> Null
      | Undefined \<Rightarrow> Undefined)"

definition parseArray :: "env \<Rightarrow> string nullable \<Rightarrow> string list option \<Rightarrow> string nullable list nullable" where
  "parseArray E value hashArg =
     (case hashArg of
        Some hash \<Rightarrow> parseNArray E value hash
      | None \<Rightarrow> (case parseArrayBare E value of
                   Val v \<Rightarrow> Val (map Val v)
                 | Null \<Rightarrow> Null
                 | Undefined \<Rightarrow> Undefined))"

section \<open>RouterService: the objective records\<close>

record Zip =
  bare :: params
  hash :: params

record ZipData =
  objectives :: Zip
  config :: Zip
  objectiveSettings :: ZipMachineSettings
  recipeSettings :: ZipMachineSettings
  machineSettings :: ZipMachineSettings

text \<open>Errors are values: the bind of the computations that may throw.\<close>

definition bindE :: "error + 'a \<Rightarrow> ('a \<Rightarrow> error + 'b) \<Rightarrow> error + 'b" where
  "bindE m f = (case m of Inl e \<Rightarrow> Inl e | Inr x \<Rightarrow> f x)"

definition ratNum :: "rat nullable \<Rightarrow> numval nullable" where
  "ratNum v = (case v of Val r \<Rightarrow> Val (Rat r) | Null \<Rightarrow> Null | Undefined \<Rightarrow> Undefined)"

text \<open>The sub-fields \<open>value\<close>, \<open>unit\<close> and \<open>type\<close> of an objective, then the lists of
  sub-fields that \<open>zipObjectives\<close> passes to \<open>zipFields\<close> for the bare and for the hashed
  record.\<close>

definition zValue :: "env \<Rightarrow> Objective \<Rightarrow> string" where
  "zValue E obj = zipDiffRational E (Val (o_value obj)) (Val 1)"

definition zUnit :: "env \<Rightarrow> Objective \<Rightarrow> string" where
  "zUnit E obj = zipDiffNumber E (Val (o_unit obj)) (Val (ObjectiveUnit_Items E))"

definition zType :: "env \<Rightarrow> Objective \<Rightarrow> string" where
  "zType E obj = zipDiffNumber E (Val (o_type obj)) (Val (ObjectiveType_Output E))"

definition bareFields :: "env \<Rightarrow> ZipData \<Rightarrow> Objective \<Rightarrow> string list" where
  "bareFields E data obj =
     [targetId obj, zValue E obj, zUnit E obj, zType E obj,
      zipString (machineId obj),
      zipArray E (numTexts E (moduleMap (objectiveSettings data) (o_id obj))),
      zipArray E (numTexts E (beaconMap (objectiveSettings data) (o_id obj))),
      zipNumber E (ratNum (overclock obj)),
      zipString (fuelId obj)]"

definition bareRecord :: "env \<Rightarrow> ZipData \<Rightarrow> Objective \<Rightarrow> string" where
  "bareRecord E data obj = zipFields E (bareFields E data obj)"

definition hashFields :: "env \<Rightarrow> ZipData \<Rightarrow> ModHash \<Rightarrow> Objective \<Rightarrow> string list" where
  "hashFields E data modHash obj =
     [zipNString E (Val (targetId obj))
        (if isRecipeObjective E obj then mh_recipes modHash else mh_items modHash),
      zValue E obj, zUnit E obj, zType E obj,
      zipNString E (machineId obj) (mh_machines modHash),
      zipArray E (numTexts E (moduleMap (objectiveSettings data) (o_id obj))),
      zipArray E (numTexts E (beaconMap (objectiveSettings data) (o_id obj))),
      zipNumber E (ratNum (overclock obj)),
      zipNString E (fuelId obj) (mh_fuels modHash)]"

definition hashRecord :: "env \<Rightarrow> ZipData \<Rightarrow> ModHash \<Rightarrow> Objective \<Rightarrow> string" where
  "hashRecord E data modHash obj = zipFields E (hashFields E data modHash obj)"

text \<open>The body of \<open>objectives.forEach\<close> in \<open>zipObjectives\<close>: one record is appended under
  the objective key to the bare and to the hashed parameters.\<close>

definition zipObjective :: "env \<Rightarrow> ModHash \<Rightarrow> Objective \<Rightarrow> ZipData \<Rightarrow> ZipData" where
  "zipObjective E modHash obj data =
     data\<lparr>objectives :=
       \<lparr>bare = bare (objectives data) @ [(QObjective E, bareRecord E data obj)],
        hash = hash (objectives data) @ [(QObjective E, hashRecord E data modHash obj)]\<rparr>\<rparr>"

definition zipObjectives :: "env \<Rightarrow> ZipData \<Rightarrow> Objective list \<Rightarrow> ModHash \<Rightarrow> ZipData" where
  "zipObjectives E data objs modHash = fold (zipObjective E modHash) objs data"

text \<open>\<open>settings[Number(i)] ?? {}\<close>, the element of a side table that an index text names.\<close>

definition settingsAt :: "env \<Rightarrow> 'a list \<Rightarrow> 'a \<Rightarrow> string nullable \<Rightarrow> 'a" where
  "settingsAt E xs dflt i =
     (case i of
        Val t \<Rightarrow> (let n = Number E t in if 0 \<le> n \<and> nat n < length xs then xs ! nat n else dflt)
      | _ \<Rightarrow> dflt)"

definition emptyModule :: ModuleSettings where
  "emptyModule = \<lparr>m_count = Undefined, m_id = Undefined\<rparr>"

definition emptyBeacon :: BeaconSettings where
  "emptyBeacon = \<lparr>b_count = Undefined, b_modules = Undefined, b_id = Undefined, b_total = Undefined\<rparr>"

definition mapArray :: "('a \<Rightarrow> 'b) \<Rightarrow> 'a list nullable \<Rightarrow> 'b list nullable" where
  "mapArray f v = (case v of Val xs \<Rightarrow> Val (map f xs) | Null \<Rightarrow> Undefined | Undefined \<Rightarrow> Undefined)"

text \<open>The body of the loop of \<open>unzipObjectives\<close> for one record: the record is split at the
  field separator and the parsers are applied by position. \<open>prune\<close> removes the keys whose
  value is \<open>undefined\<close>, which the fields of the model already stand for.\<close>

definition unzipObjective ::
  "env \<Rightarrow> ModuleSettings list \<Rightarrow> BeaconSettings list \<Rightarrow> ModHash option \<Rightarrow> nat \<Rightarrow> string
     \<Rightarrow> error + Objective" where
  "unzipObjective E moduleSettings beaconSettings hashArg idx itemObjective =
     (let s = split_sep (ZFIELDSEP E) itemObjective in
      bindE (parseRational E (at_index s 1)) (\<lambda>v.
      bindE (parseRational E (at_index s 7)) (\<lambda>oc.
        let obj = \<lparr>
              o_id = numToString E (int idx),
              targetId = (case s of t # _ \<Rightarrow> t | [] \<Rightarrow> []),
              o_value = (case v of Val r \<Rightarrow> r | _ \<Rightarrow> 1),
              o_unit = (case parseNumber E (at_index s 2) False of Val n \<Rightarrow> n | _ \<Rightarrow> ObjectiveUnit_Items E),
              o_type = (case parseNumber E (at_index s 3) False of Val n \<Rightarrow> n | _ \<Rightarrow> ObjectiveType_Output E),
              machineId = parseString E (at_index s 4) (map_option mh_machines hashArg),
              modules = mapArray (settingsAt E moduleSettings emptyModule) (parseArray E (at_index s 5) None),
              beacons = mapArray (settingsAt E beaconSettings emptyBeacon) (parseArray E (at_index s 6) None),
              overclock = oc,
              fuelId = parseString E (at_index s 8) (map_option mh_fuels hashArg)\<rparr>
        in Inr (case hashArg of
                  Some h \<Rightarrow>
                    obj\<lparr>targetId :=
                      (case parseNString E (Val (targetId obj))
                              (if isRecipeObjective E obj then mh_recipes h else mh_items h) of
                         Val t \<Rightarrow> t | _ \<Rightarrow> [])\<rparr>
                | None \<Rightarrow> obj))))"

fun unzipLoop ::
  "env \<Rightarrow> ModuleSettings list \<Rightarrow> BeaconSettings list \<Rightarrow> ModHash option \<Rightarrow> string list
     \<Rightarrow> ObjectivesState \<Rightarrow> error + ObjectivesState" where
  "unzipLoop E ms bs hashArg [] st = Inr st"
| "unzipLoop E ms bs hashArg (x # xs) st =
     (case unzipObjective E ms bs hashArg (index st) x of
        Inl e \<Rightarrow> Inl e
      | Inr obj \<Rightarrow>
          unzipLoop E ms bs hashArg xs
            \<lparr>ids = ids st @ [o_id obj], index = index st + 1,
             entities = (entities st)(o_id obj \<mapsto> obj)\<rparr>)"

definition unzipObjectives ::
  "env \<Rightarrow> params \<Rightarrow> ModuleSettings list \<Rightarrow> BeaconSettings list \<Rightarrow> ModHash option
     \<Rightarrow> error + ObjectivesState nullable" where
  "unzipObjectives E ps moduleSettings beaconSettings hashArg =
     (let list = getAll ps (QObjective E) in
      if length list = 0 then Inr Undefined
      else bindE (unzipLoop E moduleSettings beaconSettings hashArg list
                    \<lparr>ids = [], index = 1, entities = Map.empty\<rparr>)
             (\<lambda>st. Inr (Val st)))"

section \<open>RouterService: the container and the hydration\<close>

definition bareContainer :: "ZipData \<Rightarrow> params" where
  "bareContainer zData = bare (objectives zData) @ bare (config zData)"

definition hashContainer :: "ZipData \<Rightarrow> params" where
  "hashContainer zData = hash (objectives zData) @ hash (config zData)"

definition decodedText :: "env \<Rightarrow> params \<Rightarrow> string" where
  "decodedText E ps = decodeURIComponent E (searchToString E ps)"

definition zipContainer :: "env \<Rightarrow> ZipData \<Rightarrow> params" where
  "zipContainer E zData =
     (let hashStr = decodedText E (hashContainer zData);
          zStr = deflate E hashStr
      in [(QZip E, zStr), (QVersion E, version E)])"

definition getHash :: "env \<Rightarrow> ZipData \<Rightarrow> params" where
  "getHash E zData =
     (let bare = bareContainer zData;
          zip = zipContainer E zData;
          bareLen = length (decodedText E bare);
          zipLen = length (decodedText E zip)
      in if bareLen < max zipLen (MIN_ZIP E) then bare else zip)"

text \<open>
  The steps of \<open>updateState\<close> that are calls into other services or into the decoders of
  the settings are parameters: each returns its result or throws. \<open>paramKeys\<close> is
  \<open>Object.keys(params)\<close>, \<open>parseQuery\<close> builds the parameters of the inflated text.
\<close>

record ('o, 'i, 'r, 'c, 's) PartialState =
  objectivesState :: 'o
  itemsState :: 'i
  recipesState :: 'r
  machinesState :: 'c
  settingsState :: 's

record ('h, 'm, 'b, 'o, 'i, 'r, 'c, 's) steps =
  inflate :: "string \<Rightarrow> error + string"
  parseQuery :: "string \<Rightarrow> params"
  paramKeys :: "params \<Rightarrow> string list"
  initialModId :: string
  requestData :: "string \<Rightarrow> error + 'h"
  unzipModules :: "params \<Rightarrow> 'h option \<Rightarrow> error + 'm"
  unzipBeacons :: "params \<Rightarrow> 'm \<Rightarrow> 'h option \<Rightarrow> error + 'b"
  unzipObjectivesStep :: "params \<Rightarrow> 'm \<Rightarrow> 'b \<Rightarrow> 'h option \<Rightarrow> error + 'o"
  unzipItems :: "params \<Rightarrow> 'h option \<Rightarrow> error + 'i"
  unzipRecipes :: "params \<Rightarrow> 'm \<Rightarrow> 'b \<Rightarrow> 'h option \<Rightarrow> error + 'r"
  unzipMachines :: "params \<Rightarrow> 'm \<Rightarrow> 'b \<Rightarrow> 'h option \<Rightarrow> error + 'c"
  unzipSettings :: "string \<Rightarrow> params \<Rightarrow> 'b \<Rightarrow> string list \<Rightarrow> 'h \<Rightarrow> 'h option \<Rightarrow> error + 's"
  objectiveIds :: "'o \<Rightarrow> string list"
  prune :: "('o, 'i, 'r, 'c, 's) PartialState \<Rightarrow> ('o, 'i, 'r, 'c, 's) PartialState"

datatype 'st event = Ready | Dispatch 'st | ConsoleError error

text \<open>The \<open>try\<close> block of \<open>updateState\<close> up to the state that it hands to \<open>dispatch\<close>.\<close>

definition decodeState ::
  "env \<Rightarrow> ('h, 'm, 'b, 'o, 'i, 'r, 'c, 's) steps \<Rightarrow> string \<Rightarrow> params
     \<Rightarrow> error + ('o, 'i, 'r, 'c, 's) PartialState" where
  "decodeState E S modId ps =
     bindE (case get ps (QZip E) of
              Val zipSection \<Rightarrow> bindE (inflate S zipSection) (\<lambda>zip. Inr (parseQuery S zip, False))
            | _ \<Rightarrow> Inr (ps, True)) (\<lambda>(ps', isBare).
     bindE (requestData S (if modId = [] then initialModId S else modId)) (\<lambda>h.
       let useHash = (if isBare then None else Some h) in
       bindE (unzipModules S ps' useHash) (\<lambda>ms.
       bindE (unzipBeacons S ps' ms useHash) (\<lambda>bs.
       bindE (unzipObjectivesStep S ps' ms bs useHash) (\<lambda>os.
       bindE (unzipItems S ps' useHash) (\<lambda>is.
       bindE (unzipRecipes S ps' ms bs useHash) (\<lambda>rs.
       bindE (unzipMachines S ps' ms bs useHash) (\<lambda>cs.
       bindE (unzipSettings S modId ps' bs (objectiveIds S os) h useHash) (\<lambda>ss.
         Inr (prune S \<lparr>objectivesState = os, itemsState = is, recipesState = rs,
                       machinesState = cs, settingsState = ss\<rparr>))))))))))"

text \<open>\<open>dispatch\<close>: the store receives the state, then \<open>ready$\<close> fires.\<close>

definition dispatch :: "'st \<Rightarrow> 'st event list \<Rightarrow> 'st event list" where
  "dispatch partial evs = evs @ [Dispatch partial, Ready]"

text \<open>\<open>updateState\<close> returns normally or rejects with the error of its \<open>catch\<close> block; the
  second component lists, in order, what reached the store, the console and \<open>ready$\<close>.\<close>

definition updateState ::
  "env \<Rightarrow> ('h, 'm, 'b, 'o, 'i, 'r, 'c, 's) steps \<Rightarrow> string nullable \<Rightarrow> params
     \<Rightarrow> (error + unit) \<times> ('o, 'i, 'r, 'c, 's) PartialState event list" where
  "updateState E S modId ps =
     (case modId of
        Val m \<Rightarrow>
          if length (paramKeys S ps) = 0 then (Inr (), [Ready])
          else (let (res, evs) =
                      (case decodeState E S m ps of
                         Inr st \<Rightarrow> (Inr (), dispatch st [])
                       | Inl err \<Rightarrow> (Inl ParseUrlError, [ConsoleError err]))
                in (res, evs @ [Ready]))
      | _ \<Rightarrow> (Inr (), [Ready]))"

section \<open>A sample instance of the parameters\<close>

text \<open>
  Modelled from the spec: the id compaction of \<open>CompressionService\<close> and the constants of
  \<open>~/models\<close> are not under src/. The spec asks of \<open>compact\<close> and \<open>expand\<close> that
  \<open>expand (compact n) = n\<close> and that the alphabet holds no separator and no sentinel. The
  sample is the positional numbering in base 64 over letters, digits, \<open>-\<close> and \<open>.\<close>; it
  instantiates the parameters where a concrete input is evaluated.
\<close>

definition ZBASE64ABC :: string where
  "ZBASE64ABC = ''ABCDEFGHIJKLMNOPQRSTUVWXYZabcdefghijklmnopqrstuvwxyz0123456789-.''"

fun sample_nToId :: "nat \<Rightarrow> string" where
  "sample_nToId n =
     (if n < 64 then [ZBASE64ABC ! n]
      else sample_nToId (n div 64) @ [ZBASE64ABC ! (n mod 64)])"

declare sample_nToId.simps [simp del]

fun char_index :: "string \<Rightarrow> char \<Rightarrow> nat" where
  "char_index [] c = 0"
| "char_index (x # xs) c = (if x = c then 0 else Suc (char_index xs c))"

definition sample_idToN :: "string \<Rightarrow> nat" where
  "sample_idToN s = foldl (\<lambda>acc c. acc * 64 + char_index ZBASE64ABC c) 0 s"

fun digit_string :: "nat \<Rightarrow> string" where
  "digit_string n =
     (if n < 10 then [''0123456789'' ! n]
      else digit_string (n div 10) @ [''0123456789'' ! (n mod 10)])"

declare digit_string.simps [simp del]

definition sample_numToString :: "int \<Rightarrow> string" where
  "sample_numToString i = (if i < 0 then CHR ''-'' # digit_string (nat (- i)) else digit_string (nat i))"

definition sample_digits :: "string \<Rightarrow> nat" where
  "sample_digits s = foldl (\<lambda>acc c. acc * 10 + char_index ''0123456789'' c) 0 s"

definition sample_Number :: "string \<Rightarrow> int" where
  "sample_Number s = (case s of [] \<Rightarrow> 0 | c # cs \<Rightarrow> if c = CHR ''-'' then - int (sample_digits cs) else int (sample_digits s))"

definition sample_ratToString :: "rat \<Rightarrow> string" where
  "sample_ratToString r =
     (let (p, q) = quotient_of r
      in if q = 1 then sample_numToString p else sample_numToString p @ CHR ''/'' # sample_numToString q)"

definition sample_rational :: "string \<Rightarrow> error + rat" where
  "sample_rational s =
     (if s = [] \<or> \<not> list_all (\<lambda>c. c \<in> set ''-/0123456789'') s then Inl RationalError
      else (case split_sep (CHR ''/'') s of
              [p] \<Rightarrow> Inr (of_int (sample_Number p))
            | [p, q] \<Rightarrow> if sample_Number q = 0 then Inl RationalError
                        else Inr (of_int (sample_Number p) / of_int (sample_Number q))
            | _ \<Rightarrow> Inl RationalError))"

text \<open>The text of parameters whose keys and values need no escaping: \<open>k=v\<close> joined by
  \<open>&\<close>, which \<open>decodeURIComponent\<close> leaves as it is.\<close>

definition sample_searchToString :: "params \<Rightarrow> string" where
  "sample_searchToString ps = join_sep (CHR ''&'') (map (\<lambda>(k, v). k @ CHR ''='' # v) ps)"

definition sampleEnv :: env where
  "sampleEnv = \<lparr>
     ZNULL = ''?'', ZEMPTY = ''_'', ZTRUE = ''1'', ZFALSE = ''0'',
     ZARRAYSEP = CHR ''~'', ZFIELDSEP = CHR ''*'', MIN_ZIP = 75,
     nToId = (\<lambda>i. sample_nToId (nat i)), idToN = sample_idToN,
     numToString = sample_numToString, Number = sample_Number,
     ratToString = sample_ratToString, rational = sample_rational,
     deflate = (\<lambda>s. s), searchToString = sample_searchToString,
     decodeURIComponent = (\<lambda>s. s),
     QObjective = ''o'', QZip = ''z'', QVersion = ''v'', version = ''11'',
     ObjectiveUnit_Items = 0, ObjectiveType_Output = 0,
     isRecipeObjective = (\<lambda>obj. o_unit obj = 3) \<rparr>"

text \<open>Three states of the sample instance, as the multimaps that \<open>getHash\<close> receives.\<close>

definition noSettings :: ZipMachineSettings where
  "noSettings = \<lparr>moduleMap = (\<lambda>k. Undefined), beaconMap = (\<lambda>k. Undefined)\<rparr>"

definition sampleCosts :: params where
  "sampleCosts = [(''odr'', ''2''), (''ifr'', ''1500''), (''bmi'', ''100''), (''bre'', ''100''),
     (''cfa'', ''10''), (''cma'', ''100''), (''cfp'', ''1''), (''cun'', ''1000000''),
     (''cex'', ''100''), (''v'', ''11'')]"

definition equalLengths :: ZipData where
  "equalLengths = \<lparr>
     objectives = \<lparr>bare = [(''o'', ''iron-ore'')], hash = [(''o'', ''A'')]\<rparr>,
     config = \<lparr>bare = sampleCosts, hash = sampleCosts\<rparr>,
     objectiveSettings = noSettings, recipeSettings = noSettings, machineSettings = noSettings\<rparr>"

definition fiveObjectives :: ZipData where
  "fiveObjectives = \<lparr>
     objectives = \<lparr>
       bare = [(''o'', ''advanced-circuit''), (''o'', ''electronic-circuit''), (''o'', ''processing-unit''),
               (''o'', ''rocket-control-unit''), (''o'', ''low-density-structure'')],
       hash = [(''o'', ''A''), (''o'', ''B''), (''o'', ''C''), (''o'', ''D''), (''o'', ''E'')]\<rparr>,
     config = \<lparr>bare = [(''v'', ''11'')], hash = [(''v'', ''11'')]\<rparr>,
     objectiveSettings = noSettings, recipeSettings = noSettings, machineSettings = noSettings\<rparr>"

definition oneObjective :: ZipData where
  "oneObjective = \<lparr>
     objectives = \<lparr>bare = [(''o'', ''coal'')], hash = [(''o'', ''A'')]\<rparr>,
     config = \<lparr>bare = [(''v'', ''11'')], hash = [(''v'', ''11'')]\<rparr>,
     objectiveSettings = noSettings, recipeSettings = noSettings, machineSettings = noSettings\<rparr>"


text \<open>A dictionary of the sample instance with one item and one machine.\<close>

definition oneMachine :: ModHash where
  "oneMachine = \<lparr>mh_items = [''iron-plate''], mh_recipes = [], mh_machines = [''assembling-machine-1''],
     mh_fuels = []\<rparr>"

text \<open>Steps of the sample instance: the result of \<open>inflate\<close> is given, the objectives are
  decoded by \<open>unzipObjectives\<close>, every other step succeeds with nothing to return.\<close>

definition sampleSteps ::
  "(error + string)
     \<Rightarrow> (ModHash, ModuleSettings list, BeaconSettings list, ObjectivesState nullable,
         unit, unit, unit, unit) steps" where
  "sampleSteps inflated = \<lparr>
     inflate = (\<lambda>z. inflated), parseQuery = (\<lambda>s. [(''o'', s)]), paramKeys = map fst,
     initialModId = ''1.1'', requestData = (\<lambda>m. Inr oneMachine),
     unzipModules = (\<lambda>ps h. Inr []), unzipBeacons = (\<lambda>ps ms h. Inr []),
     unzipObjectivesStep = unzipObjectives sampleEnv, unzipItems = (\<lambda>ps h. Inr ()),
     unzipRecipes = (\<lambda>ps ms bs h. Inr ()), unzipMachines = (\<lambda>ps ms bs h. Inr ()),
     unzipSettings = (\<lambda>m ps bs is h u. Inr ()),
     objectiveIds = (\<lambda>os. case os of Val st \<Rightarrow> ids st | _ \<Rightarrow> []), prune = (\<lambda>st. st)\<rparr>"

text \<open>An objective of the sample instance with the default value, unit and type and
  no optional field.\<close>

definition plainObjective :: "string \<Rightarrow> Objective" where
  "plainObjective t = \<lparr>o_id = ''1'', targetId = t, o_value = 1, o_unit = 0, o_type = 0,
     machineId = Undefined, modules = Undefined, beacons = Undefined, overclock = Undefined,
     fuelId = Undefined\<rparr>"

section \<open>Notions of the proofs\<close>

text \<open>The id compaction is sound up to \<open>n\<close>: on the positions below \<open>n\<close>, \<open>idToN\<close> inverts
  \<open>nToId\<close>, and an id is not empty and holds no separator and no character of a sentinel.\<close>

definition compactOk :: "env \<Rightarrow> nat \<Rightarrow> bool" where
  "compactOk E n =
     (ZARRAYSEP E \<noteq> ZFIELDSEP E \<and>
      (\<forall>i<n. idToN E (nToId E (int i)) = i \<and> nToId E (int i) \<noteq> [] \<and>
              ZARRAYSEP E \<notin> set (nToId E (int i)) \<and> ZFIELDSEP E \<notin> set (nToId E (int i)) \<and>
              set (nToId E (int i)) \<inter> set (ZNULL E) = {} \<and>
              set (nToId E (int i)) \<inter> set (ZEMPTY E) = {}))"

text \<open>The token of the run from position \<open>s\<close> to position \<open>e\<close>.\<close>

definition render :: "env \<Rightarrow> nat \<Rightarrow> nat \<Rightarrow> string" where
  "render E s e =
     (if s = e then nToId E (int s) else nToId E (int s) @ ZARRAYSEP E # nToId E (int e))"

definition wfRange :: "env \<Rightarrow> string \<Rightarrow> bool" where
  "wfRange E r = (r \<noteq> [] \<and> ZFIELDSEP E \<notin> set r \<and> hd r \<notin> set (ZNULL E) \<and> hd r \<notin> set (ZEMPTY E))"

text \<open>The variables \<open>start\<close> and \<open>end\<close> before position \<open>i\<close> when the run that is open, if
  any, began at position \<open>s\<close> and every id of \<open>hash\<close> is in \<open>all\<close>.\<close>

fun absState :: "env \<Rightarrow> nat \<Rightarrow> nat option \<Rightarrow> string option \<times> string option" where
  "absState E i None = (None, None)"
| "absState E i (Some s) =
     (Some (nToId E (int s)), if Suc s = i then None else Some (nToId E (int (i - 1))))"

text \<open>The positions whose ids are in \<open>all\<close> and selected.\<close>

definition selectedPos :: "string set \<Rightarrow> string list \<Rightarrow> string list \<Rightarrow> nat set" where
  "selectedPos v all ref = set (filter (\<lambda>i. ref ! i \<in> set all \<and> ref ! i \<in> v) [0..<length ref])"


text \<open>A range token names selected positions only: it is the id of one, or the ids of
  two in ascending order around the array separator.\<close>

definition emitted :: "env \<Rightarrow> nat set \<Rightarrow> string \<Rightarrow> bool" where
  "emitted E S r =
     ((\<exists>i\<in>S. r = nToId E (int i)) \<or>
      (\<exists>i\<in>S. \<exists>j\<in>S. i < j \<and> r = nToId E (int i) @ ZARRAYSEP E # nToId E (int j)))"

text \<open>What holds of \<open>result\<close>, \<open>start\<close> and \<open>end\<close> before position \<open>i\<close> of any scan.\<close>

fun scanInv :: "env \<Rightarrow> nat set \<Rightarrow> nat \<Rightarrow> scan \<Rightarrow> bool" where
  "scanInv E S i (result, st, en) =
     ((\<forall>r\<in>set result. emitted E S r) \<and>
      (case st of
         None \<Rightarrow> en = None
       | Some a \<Rightarrow> (\<exists>s\<in>S. s < i \<and> a = nToId E (int s) \<and>
            (case en of None \<Rightarrow> True
             | Some b \<Rightarrow> (\<exists>e\<in>S. s < e \<and> e < i \<and> b = nToId E (int e))))))"


section \<open>Splitting and joining\<close>

lemma split_sep_not_Nil [simp]: "split_sep c s \<noteq> []"
  by (induction s) (auto split: list.splits)

lemma split_sep_no_sep: "c \<notin> set s \<Longrightarrow> split_sep c s = [s]"
  by (induction s) auto

lemma split_sep_append: "c \<notin> set x \<Longrightarrow> split_sep c (x @ c # rest) = x # split_sep c rest"
  by (induction x) (auto split: list.splits)

lemma split_join:
  "rs \<noteq> [] \<Longrightarrow> \<forall>r\<in>set rs. c \<notin> set r \<Longrightarrow> split_sep c (join_sep c rs) = rs"
proof (induction c rs rule: join_sep.induct)
  case (1 c)
  then show ?case by simp
next
  case (2 c x)
  then show ?case by (simp add: split_sep_no_sep)
next
  case (3 c x y ys)
  then show ?case by (simp add: split_sep_append)
qed

lemma fold_union:
  "fold (\<lambda>r acc. acc \<union> f r) rs A = A \<union> (\<Union>r\<in>set rs. f r)"
  by (induction rs arbitrary: A) auto

lemma join_sep_hd: "rs \<noteq> [] \<Longrightarrow> hd rs \<noteq> [] \<Longrightarrow> join_sep c rs \<noteq> [] \<and> hd (join_sep c rs) = hd (hd rs)"
  by (induction c rs rule: join_sep.induct) auto

lemma render_wf:
  assumes "compactOk E n" "s \<le> e" "e < n"
  shows "wfRange E (render E s e)"
proof -
  from assms have s: "s < n" by simp
  from assms(1) s have a: "nToId E (int s) \<noteq> []" "ZFIELDSEP E \<notin> set (nToId E (int s))"
    "set (nToId E (int s)) \<inter> set (ZNULL E) = {}" "set (nToId E (int s)) \<inter> set (ZEMPTY E) = {}"
    by (simp_all add: compactOk_def)
  from assms(1,3) have b: "ZFIELDSEP E \<notin> set (nToId E (int e))" "ZARRAYSEP E \<noteq> ZFIELDSEP E"
    by (simp_all add: compactOk_def)
  from a(1) have "hd (nToId E (int s)) \<in> set (nToId E (int s))" by simp
  with a(3,4) have h: "hd (nToId E (int s)) \<notin> set (ZNULL E)" "hd (nToId E (int s)) \<notin> set (ZEMPTY E)"
    by auto
  show ?thesis using a b h by (auto simp: wfRange_def render_def)
qed

lemma render_slice:
  assumes "compactOk E n" "s \<le> e" "e < n"
  shows "rangeSlice E dict (render E s e) = slice dict s (Suc e)"
proof -
  from assms have s: "s < n" by simp
  from assms(1) s have a: "ZARRAYSEP E \<notin> set (nToId E (int s))" "idToN E (nToId E (int s)) = s"
    by (simp_all add: compactOk_def)
  from assms(1,3) have b: "ZARRAYSEP E \<notin> set (nToId E (int e))" "idToN E (nToId E (int e)) = e"
    by (simp_all add: compactOk_def)
  show ?thesis
  proof (cases "s = e")
    case True
    then show ?thesis using a by (simp add: render_def rangeSlice_def split_sep_no_sep)
  next
    case False
    then show ?thesis using a b
      by (simp add: render_def rangeSlice_def split_sep_no_sep split_sep_append)
  qed
qed

lemma render_wf_pred:
  assumes "compactOk E n" "s < i" "i \<le> n"
  shows "wfRange E (render E s (i - 1))"
  using render_wf [OF assms(1), of s "i - 1"] assms(2,3) by simp

lemma render_slice_pred:
  assumes "compactOk E n" "s < i" "i \<le> n"
  shows "rangeSlice E dict (render E s (i - 1)) = slice dict s i"
proof -
  from assms(2) have "Suc (i - 1) = i" by simp
  then show ?thesis using render_slice [OF assms(1), of s "i - 1" dict] assms(2,3) by simp
qed

lemma scanStep_abs:
  assumes "h \<in> allSet" "\<And>s. ob = Some s \<Longrightarrow> s < i"
  shows "scanStep E allSet v h i (result, absState E i ob) =
     (if h \<in> v then (result, absState E (Suc i) (Some (case ob of None \<Rightarrow> i | Some s \<Rightarrow> s)))
      else (case ob of None \<Rightarrow> (result, absState E (Suc i) None)
            | Some s \<Rightarrow> (result @ [render E s (i - 1)], absState E (Suc i) None)))"
  using assms by (cases ob) (auto simp: flushRun_def render_def)


lemma slice_Suc:
  assumes "s \<le> i" "i < length xs"
  shows "slice xs s (Suc i) = slice xs s i @ [xs ! i]"
proof -
  have "Suc i - s = Suc (i - s)" using assms by simp
  moreover have "i - s < length (drop s xs)" using assms by simp
  ultimately show ?thesis using assms
    by (simp add: slice_def take_Suc_conv_app_nth)
qed

lemma slice_empty [simp]: "slice xs s s = []"
  by (simp add: slice_def)

lemma scan_sem:
  assumes ok: "compactOk E (length ref)"
  shows "ref = pre @ xs \<Longrightarrow> set xs \<subseteq> allSet \<Longrightarrow>
     (\<And>s. ob = Some s \<Longrightarrow> s < length pre \<and> (\<forall>k. s \<le> k \<and> k < length pre \<longrightarrow> ref ! k \<in> v)) \<Longrightarrow>
     \<exists>new. finishRun E (scanFrom E allSet v xs (length pre) (result, absState E (length pre) ob))
              = result @ new
        \<and> (\<forall>r\<in>set new. wfRange E r)
        \<and> (\<Union>r\<in>set new. set (rangeSlice E ref r))
            = (case ob of None \<Rightarrow> {} | Some s \<Rightarrow> set (slice ref s (length pre))) \<union> {x \<in> set xs. x \<in> v}"
proof (induction xs arbitrary: pre ob result)
  case Nil
  show ?case
  proof (cases ob)
    case None
    then show ?thesis by simp
  next
    case (Some s)
    with Nil have s: "s < length pre" by simp
    from Nil have len: "length ref = length pre" by simp
    have fin: "finishRun E (result, absState E (length pre) (Some s)) = result @ [render E s (length pre - 1)]"
      using s by (auto simp: flushRun_def render_def)
    have wf: "wfRange E (render E s (length pre - 1))"
      using render_wf_pred [OF ok, of s "length pre"] s len by simp
    have sl: "rangeSlice E ref (render E s (length pre - 1)) = slice ref s (length pre)"
      using render_slice_pred [OF ok, of s "length pre" ref] s len by simp
    show ?thesis using Some fin wf sl by simp
  qed
next
  case (Cons h hs)
  let ?i = "length pre"
  have ref: "ref = (pre @ [h]) @ hs" using Cons.prems(1) by simp
  have hs: "set hs \<subseteq> allSet" and h: "h \<in> allSet" using Cons.prems(2) by simp_all
  have i: "?i < length ref" and hi: "ref ! ?i = h" using Cons.prems(1) by simp_all
  have bound: "\<And>s. ob = Some s \<Longrightarrow> s < ?i" using Cons.prems(3) by simp
  note step = scanStep_abs [OF h bound, of ob E v result]
  show ?case
  proof (cases "h \<in> v")
    case True
    define s' where "s' = (case ob of None \<Rightarrow> ?i | Some s \<Rightarrow> s)"
    have s'le: "s' \<le> ?i" using bound by (auto simp: s'_def split: option.splits)
    have inv: "\<And>s. Some s' = Some s \<Longrightarrow>
        s < length (pre @ [h]) \<and> (\<forall>k. s \<le> k \<and> k < length (pre @ [h]) \<longrightarrow> ref ! k \<in> v)"
    proof -
      fix s assume "Some s' = Some s"
      then have e: "s = s'" by simp
      have "\<And>k. s' \<le> k \<Longrightarrow> k < Suc ?i \<Longrightarrow> ref ! k \<in> v"
      proof -
        fix k assume k: "s' \<le> k" "k < Suc ?i"
        show "ref ! k \<in> v"
        proof (cases "k = ?i")
          case True
          then show ?thesis using hi \<open>h \<in> v\<close> by simp
        next
          case False
          with k have kl: "k < ?i" by simp
          with k s'le have "ob \<noteq> None" by (cases ob) (auto simp: s'_def)
          then obtain s0 where ob: "ob = Some s0" by auto
          then have "s' = s0" by (simp add: s'_def)
          with Cons.prems(3) [OF ob] k kl show ?thesis by simp
        qed
      qed
      then show "s < length (pre @ [h]) \<and> (\<forall>k. s \<le> k \<and> k < length (pre @ [h]) \<longrightarrow> ref ! k \<in> v)"
        using e s'le by simp
    qed
    from Cons.IH [where pre = "pre @ [h]" and ob = "Some s'" and result = result, OF ref hs inv]
    obtain new where new:
      "finishRun E (scanFrom E allSet v hs (Suc ?i) (result, absState E (Suc ?i) (Some s'))) = result @ new"
      "\<forall>r\<in>set new. wfRange E r"
      "(\<Union>r\<in>set new. set (rangeSlice E ref r)) = set (slice ref s' (Suc ?i)) \<union> {x \<in> set hs. x \<in> v}"
      by auto
    have sl: "set (slice ref s' (Suc ?i)) = (case ob of None \<Rightarrow> {} | Some s \<Rightarrow> set (slice ref s ?i)) \<union> {h}"
      using slice_Suc [OF s'le i] hi by (auto simp: s'_def split: option.splits)
    have "finishRun E (scanFrom E allSet v (h # hs) ?i (result, absState E ?i ob)) = result @ new"
      using step True new(1) by (simp add: s'_def)
    moreover have "(\<Union>r\<in>set new. set (rangeSlice E ref r))
        = (case ob of None \<Rightarrow> {} | Some s \<Rightarrow> set (slice ref s ?i)) \<union> {x \<in> set (h # hs). x \<in> v}"
      using new(3) sl True by auto
    ultimately show ?thesis using new(2) by blast
  next
    case False
    have inv: "\<And>s. (None :: nat option) = Some s \<Longrightarrow>
        s < length (pre @ [h]) \<and> (\<forall>k. s \<le> k \<and> k < length (pre @ [h]) \<longrightarrow> ref ! k \<in> v)"
      by simp
    show ?thesis
    proof (cases ob)
      case None
      from Cons.IH [where pre = "pre @ [h]" and ob = None and result = result, OF ref hs inv]
      obtain new where new:
        "finishRun E (scanFrom E allSet v hs (Suc ?i) (result, absState E (Suc ?i) None)) = result @ new"
        "\<forall>r\<in>set new. wfRange E r"
        "(\<Union>r\<in>set new. set (rangeSlice E ref r)) = {x \<in> set hs. x \<in> v}"
        by auto
      have "finishRun E (scanFrom E allSet v (h # hs) ?i (result, absState E ?i ob)) = result @ new"
        using step False None new(1) by simp
      moreover have "(\<Union>r\<in>set new. set (rangeSlice E ref r))
          = (case ob of None \<Rightarrow> {} | Some s \<Rightarrow> set (slice ref s ?i)) \<union> {x \<in> set (h # hs). x \<in> v}"
        using new(3) None False by auto
      ultimately show ?thesis using new(2) by blast
    next
      case (Some s)
      then have s: "s < ?i" using bound by simp
      let ?r = "render E s (?i - 1)"
      from Cons.IH [where pre = "pre @ [h]" and ob = None and result = "result @ [?r]", OF ref hs inv]
      obtain new where new:
        "finishRun E (scanFrom E allSet v hs (Suc ?i) (result @ [?r], absState E (Suc ?i) None))
           = (result @ [?r]) @ new"
        "\<forall>r\<in>set new. wfRange E r"
        "(\<Union>r\<in>set new. set (rangeSlice E ref r)) = {x \<in> set hs. x \<in> v}"
        by auto
      have wf: "wfRange E ?r"
        using render_wf_pred [OF ok, of s ?i] s i by simp
      have sl: "rangeSlice E ref ?r = slice ref s ?i"
        using render_slice_pred [OF ok, of s ?i ref] s i by simp
      have "finishRun E (scanFrom E allSet v (h # hs) ?i (result, absState E ?i ob)) = result @ (?r # new)"
        using step False Some new(1) by simp
      moreover have "(\<Union>r\<in>set (?r # new). set (rangeSlice E ref r))
          = (case ob of None \<Rightarrow> {} | Some s \<Rightarrow> set (slice ref s ?i)) \<union> {x \<in> set (h # hs). x \<in> v}"
        using new(3) Some False sl by auto
      moreover have "\<forall>r\<in>set (?r # new). wfRange E r" using wf new(2) by simp
      ultimately show ?thesis by blast
    qed
  qed
qed


lemma subsetRanges_sem:
  assumes ok: "compactOk E (length ref)" and sub: "set ref \<subseteq> set all"
  shows "(\<forall>r\<in>set (subsetRanges E v all ref). wfRange E r)
       \<and> (\<Union>r\<in>set (subsetRanges E v all ref). set (rangeSlice E ref r)) = v \<inter> set ref"
proof -
  from scan_sem [OF ok, where pre = "[]" and xs = ref and ob = None and allSet = "set all"
      and result = "[]" and v = v] sub
  show ?thesis by (auto simp: subsetRanges_def)
qed

lemma parseSubset_join:
  assumes ne: "rs \<noteq> []" and wf: "\<forall>r\<in>set rs. wfRange E r"
  shows "parseSubset E (Val (join_sep (ZFIELDSEP E) rs)) dict
       = Val (\<Union>r\<in>set rs. set (rangeSlice E dict r))"
proof -
  let ?t = "join_sep (ZFIELDSEP E) rs"
  from ne wf have h: "wfRange E (hd rs)" by simp
  then have "hd rs \<noteq> []" by (simp add: wfRange_def)
  from join_sep_hd [OF ne this] have t: "?t \<noteq> []" "hd ?t = hd (hd rs)" by simp_all
  from t(1) have "hd ?t \<in> set ?t" by simp
  with t(2) h have "?t \<noteq> ZNULL E" "?t \<noteq> ZEMPTY E" by (auto simp: wfRange_def)
  moreover have "split_sep (ZFIELDSEP E) ?t = rs"
    using split_join [OF ne] wf by (simp add: wfRange_def)
  ultimately show ?thesis using t(1) by (simp add: parseSubset_def fold_union)
qed

lemma scanFrom_cong:
  "(\<And>h. h \<in> set xs \<Longrightarrow> h \<in> allSet \<Longrightarrow> (h \<in> v \<longleftrightarrow> h \<in> w)) \<Longrightarrow>
   scanFrom E allSet v xs i st = scanFrom E allSet w xs i st"
proof (induction xs arbitrary: i st)
  case Nil
  show ?case by simp
next
  case (Cons h hs)
  obtain result s e where st: "st = (result, s, e)" by (cases st) auto
  have "scanStep E allSet v h i st = scanStep E allSet w h i st"
    using Cons.prems [where h = h] by (simp add: st)
  then show ?case using Cons.IH [where i = "Suc i" and st = "scanStep E allSet w h i st"] Cons.prems by simp
qed

lemma subsetRanges_cong:
  "(\<And>h. h \<in> set ref \<Longrightarrow> h \<in> set all \<Longrightarrow> (h \<in> v \<longleftrightarrow> h \<in> w)) \<Longrightarrow>
   subsetRanges E v all ref = subsetRanges E w all ref"
  using scanFrom_cong [where xs = ref and allSet = "set all" and v = v and w = w] by (simp add: subsetRanges_def)

lemma selectedPos_iff:
  "i \<in> selectedPos v all ref \<longleftrightarrow> i < length ref \<and> ref ! i \<in> set all \<and> ref ! i \<in> v"
  by (auto simp: selectedPos_def)

lemma scanStep_inv:
  assumes "scanInv E (selectedPos v all ref) i st" "i < length ref"
  shows "scanInv E (selectedPos v all ref) (Suc i) (scanStep E (set all) v (ref ! i) i st)"
proof -
  obtain result a b where st: "st = (result, a, b)" by (cases st) auto
  show ?thesis
  proof (cases "ref ! i \<in> set all \<and> ref ! i \<in> v")
    case True
    then have "i \<in> selectedPos v all ref" using assms(2) by (simp add: selectedPos_iff)
    then show ?thesis using assms(1) True unfolding st
      by (cases a; cases b) (auto intro: less_SucI)
  next
    case False
    then show ?thesis using assms(1) unfolding st
      by (cases a; cases b) (auto simp: flushRun_def emitted_def intro: less_SucI)
  qed
qed

lemma scanFrom_inv:
  "ref = pre @ xs \<Longrightarrow> scanInv E (selectedPos v all ref) (length pre) st \<Longrightarrow>
   \<forall>r\<in>set (finishRun E (scanFrom E (set all) v xs (length pre) st)). emitted E (selectedPos v all ref) r"
proof (induction xs arbitrary: pre st)
  case Nil
  obtain result a b where st: "st = (result, a, b)" by (cases st) auto
  show ?case using Nil(2) unfolding st
    by (cases a; cases b) (auto simp: flushRun_def emitted_def)
next
  case (Cons h hs)
  have i: "length pre < length ref" and hi: "ref ! length pre = h" using Cons.prems(1) by simp_all
  have ref: "ref = (pre @ [h]) @ hs" using Cons.prems(1) by simp
  from scanStep_inv [OF Cons.prems(2) i]
  have "scanInv E (selectedPos v all ref) (length (pre @ [h])) (scanStep E (set all) v h (length pre) st)"
    using hi by simp
  from Cons.IH [OF ref this] show ?case by simp
qed


section \<open>The sample instance is sound\<close>

lemma sample_nToId_small: "n < 64 \<Longrightarrow> sample_nToId n = [ZBASE64ABC ! n]"
  by (simp add: sample_nToId.simps)

lemma char_index_nth: "distinct xs \<Longrightarrow> n < length xs \<Longrightarrow> char_index xs (xs ! n) = n"
proof (induction xs arbitrary: n)
  case Nil
  then show ?case by simp
next
  case (Cons x xs)
  show ?case
  proof (cases n)
    case 0
    then show ?thesis by simp
  next
    case (Suc k)
    with Cons.prems have "xs ! k \<in> set xs" by simp
    with Cons.prems have "x \<noteq> xs ! k" by auto
    with Cons Suc show ?thesis by simp
  qed
qed

lemma ZBASE64ABC_length: "length ZBASE64ABC = 64"
  by (simp add: ZBASE64ABC_def)

lemma ZBASE64ABC_distinct: "distinct ZBASE64ABC"
  by (simp add: ZBASE64ABC_def)

lemma sample_idToN_snoc: "sample_idToN (s @ [c]) = sample_idToN s * 64 + char_index ZBASE64ABC c"
  by (simp add: sample_idToN_def)

lemma sample_round_trip: "sample_idToN (sample_nToId n) = n"
proof (induction n rule: sample_nToId.induct)
  case (1 n)
  show ?case
  proof (cases "n < 64")
    case True
    then show ?thesis
      using char_index_nth [OF ZBASE64ABC_distinct, of n]
      by (simp add: sample_nToId.simps [of n] sample_idToN_def ZBASE64ABC_length)
  next
    case False
    have "n mod 64 < length ZBASE64ABC" by (simp add: ZBASE64ABC_length)
    then have "char_index ZBASE64ABC (ZBASE64ABC ! (n mod 64)) = n mod 64"
      by (rule char_index_nth [OF ZBASE64ABC_distinct])
    with False 1 show ?thesis
      by (simp add: sample_nToId.simps [of n] sample_idToN_snoc)
  qed
qed

lemma sample_alphabet: "set (sample_nToId n) \<subseteq> set ZBASE64ABC \<and> sample_nToId n \<noteq> []"
proof (induction n rule: sample_nToId.induct)
  case (1 n)
  show ?case
  proof (cases "n < 64")
    case True
    then have "ZBASE64ABC ! n \<in> set ZBASE64ABC" by (simp add: ZBASE64ABC_length)
    with True show ?thesis by (simp add: sample_nToId.simps [of n])
  next
    case False
    have "ZBASE64ABC ! (n mod 64) \<in> set ZBASE64ABC" by (simp add: ZBASE64ABC_length)
    with False 1 show ?thesis by (simp add: sample_nToId.simps [of n])
  qed
qed

lemma sample_reserved:
  "CHR ''*'' \<notin> set ZBASE64ABC" "CHR ''~'' \<notin> set ZBASE64ABC"
  "CHR ''?'' \<notin> set ZBASE64ABC" "CHR ''_'' \<notin> set ZBASE64ABC"
  by (simp_all add: ZBASE64ABC_def)

lemma sample_compactOk: "compactOk sampleEnv n"
proof -
  have "idToN sampleEnv (nToId sampleEnv (int i)) = i \<and> nToId sampleEnv (int i) \<noteq> []
      \<and> ZARRAYSEP sampleEnv \<notin> set (nToId sampleEnv (int i))
      \<and> ZFIELDSEP sampleEnv \<notin> set (nToId sampleEnv (int i))
      \<and> set (nToId sampleEnv (int i)) \<inter> set (ZNULL sampleEnv) = {}
      \<and> set (nToId sampleEnv (int i)) \<inter> set (ZEMPTY sampleEnv) = {}" for i
    using sample_round_trip [of i] sample_alphabet [of i] sample_reserved
    by (auto simp: sampleEnv_def)
  then show ?thesis by (simp add: compactOk_def) (simp add: sampleEnv_def)
qed

section \<open>The subset range codec\<close>

text \<open>
  C1 (as amended). Let every id of the reference ordering \<open>ref\<close> be in \<open>all\<close>, and let the
  id compaction be sound on the positions of \<open>ref\<close>. For a selection \<open>v\<close> that has an id
  in \<open>ref\<close>, or that is empty while \<open>init\<close> is not the empty set, decoding the token of
  \<open>zipDiffSubset\<close> over \<open>ref\<close> yields \<open>v\<close> restricted to the ids of \<open>ref\<close>, and encoding
  that set again with the same \<open>init\<close>, \<open>all\<close> and \<open>ref\<close> yields the same token. When \<open>v\<close>
  and \<open>init\<close> are both the empty set the token is the empty string, which decodes to
  \<open>undefined\<close>.
\<close>

theorem subset_round_trip:
  assumes ok: "compactOk E (length ref)" and sub: "set ref \<subseteq> set all"
    and z: "ZEMPTY E \<noteq> []" "ZEMPTY E \<noteq> ZNULL E"
  shows "(v \<inter> set ref \<noteq> {} \<or> (v = {} \<and> init \<noteq> Val {}) \<longrightarrow>
            parseSubset E (Val (zipDiffSubset E (Val v) init all (Some ref))) ref = Val (v \<inter> set ref)
          \<and> zipDiffSubset E (Val (v \<inter> set ref)) init all (Some ref)
              = zipDiffSubset E (Val v) init all (Some ref))
       \<and> (v = {} \<and> init = Val {} \<longrightarrow>
            zipDiffSubset E (Val v) init all (Some ref) = []
          \<and> parseSubset E (Val (zipDiffSubset E (Val v) init all (Some ref))) ref = Undefined)"
proof -
  have full: "parseSubset E (Val (zipDiffSubset E (Val v) init all (Some ref))) ref = Val (v \<inter> set ref)
       \<and> zipDiffSubset E (Val (v \<inter> set ref)) init all (Some ref)
           = zipDiffSubset E (Val v) init all (Some ref)" if ne: "v \<inter> set ref \<noteq> {}"
  proof -
    from ne have v: "v \<noteq> {}" by auto
    note sem = subsetRanges_sem [OF ok sub, where v = v]
    from sem ne have rs: "subsetRanges E v all ref \<noteq> []" by auto
    have dec: "parseSubset E (Val (zipDiffSubset E (Val v) init all (Some ref))) ref = Val (v \<inter> set ref)"
      using parseSubset_join [OF rs, where dict = ref] sem v by (simp add: zipDiffSubset_def)
    have "subsetRanges E (v \<inter> set ref) all ref = subsetRanges E v all ref"
      by (rule subsetRanges_cong) auto
    then have "zipDiffSubset E (Val (v \<inter> set ref)) init all (Some ref)
             = zipDiffSubset E (Val v) init all (Some ref)"
      using ne v by (simp add: zipDiffSubset_def)
    with dec show ?thesis by simp
  qed
  have empty: "parseSubset E (Val (zipDiffSubset E (Val v) init all (Some ref))) ref = Val (v \<inter> set ref)
       \<and> zipDiffSubset E (Val (v \<inter> set ref)) init all (Some ref)
           = zipDiffSubset E (Val v) init all (Some ref)" if "v = {}" "init \<noteq> Val {}"
    using that z by (simp add: zipDiffSubset_def parseSubset_def)
  have same: "zipDiffSubset E (Val v) init all (Some ref) = []
          \<and> parseSubset E (Val (zipDiffSubset E (Val v) init all (Some ref))) ref = Undefined"
    if "v = {}" "init = Val {}"
    using that by (simp add: zipDiffSubset_def parseSubset_def)
  from full empty same show ?thesis by blast
qed

theorem subset_round_trip_witness:
  "compactOk sampleEnv (length [''a'', ''b'', ''c'', ''d'', ''e''])
   \<and> set [''a'', ''b'', ''c'', ''d'', ''e''] \<subseteq> set [''a'', ''b'', ''c'', ''d'', ''e'']
   \<and> ZEMPTY sampleEnv \<noteq> [] \<and> ZEMPTY sampleEnv \<noteq> ZNULL sampleEnv
   \<and> {''b'', ''c'', ''d''} \<inter> set [''a'', ''b'', ''c'', ''d'', ''e''] \<noteq> {}
   \<and> zipDiffSubset sampleEnv (Val {''b'', ''c'', ''d''}) (Val {})
        [''a'', ''b'', ''c'', ''d'', ''e''] (Some [''a'', ''b'', ''c'', ''d'', ''e'']) = ''B~D''
   \<and> parseSubset sampleEnv (Val ''B~D'') [''a'', ''b'', ''c'', ''d'', ''e'']
        = Val ({''b'', ''c'', ''d''} \<inter> set [''a'', ''b'', ''c'', ''d'', ''e''])"
proof -
  let ?ref = "[''a'', ''b'', ''c'', ''d'', ''e'']"
  have ok: "compactOk sampleEnv (length ?ref)" by (rule sample_compactOk)
  have sub: "set ?ref \<subseteq> set ?ref" by simp
  have z: "ZEMPTY sampleEnv \<noteq> []" "ZEMPTY sampleEnv \<noteq> ZNULL sampleEnv"
    by (simp_all add: sampleEnv_def)
  have ne: "{''b'', ''c'', ''d''} \<inter> set ?ref \<noteq> {}" by simp
  have tok: "zipDiffSubset sampleEnv (Val {''b'', ''c'', ''d''}) (Val {}) ?ref (Some ?ref) = ''B~D''"
    by (simp add: zipDiffSubset_def subsetRanges_def flushRun_def sampleEnv_def
        sample_nToId_small ZBASE64ABC_def)
  from subset_round_trip [OF ok sub z, where v = "{''b'', ''c'', ''d''}" and init = "Val {}"] ne
  have "parseSubset sampleEnv
          (Val (zipDiffSubset sampleEnv (Val {''b'', ''c'', ''d''}) (Val {}) ?ref (Some ?ref))) ?ref
        = Val ({''b'', ''c'', ''d''} \<inter> set ?ref)"
    by blast
  then have dec: "parseSubset sampleEnv (Val ''B~D'') ?ref = Val ({''b'', ''c'', ''d''} \<inter> set ?ref)"
    unfolding tok .
  from ok sub z ne tok dec show ?thesis by (intro conjI)
qed

text \<open>
  C1 as stated fails: the empty selection against the empty baseline is encoded as the
  empty string, which \<open>parseSubset\<close> decodes to \<open>undefined\<close> and not to the empty set.
\<close>

theorem subset_round_trip_counterexample:
  "distinct [''a''] \<and> set [''a''] \<subseteq> set [''a''] \<and> ({} :: string set) \<subseteq> set [''a'']
   \<and> parseSubset sampleEnv (Val (zipDiffSubset sampleEnv (Val {}) (Val {}) [''a''] (Some [''a''])))
        [''a''] \<noteq> Val ({} \<inter> set [''a''])"
  by (simp add: zipDiffSubset_def parseSubset_def)

text \<open>
  C7. In the encoding of a selection that is not empty, every range token names only
  positions of \<open>ref\<close> whose id is both in \<open>all\<close> and selected: the position of an id that
  is selected but not in \<open>all\<close> is emitted neither as a start nor as an end. The range
  tokens, and with them the token, are those of the selection restricted to \<open>all\<close>.
\<close>

theorem excluded_ids_not_encoded:
  "(\<forall>r\<in>set (subsetRanges E v all ref). emitted E (selectedPos v all ref) r)
   \<and> subsetRanges E v all ref = subsetRanges E (v \<inter> set all) all ref
   \<and> (v \<inter> set all \<noteq> {} \<longrightarrow>
        zipDiffSubset E (Val v) init all (Some ref) = zipDiffSubset E (Val (v \<inter> set all)) init all (Some ref))"
proof -
  have a: "\<forall>r\<in>set (subsetRanges E v all ref). emitted E (selectedPos v all ref) r"
    using scanFrom_inv [where pre = "[]" and xs = ref and ref = ref and st = "([], None, None)"
        and E = E and v = v and all = all]
    by (simp add: subsetRanges_def)
  have b: "subsetRanges E v all ref = subsetRanges E (v \<inter> set all) all ref"
    by (rule subsetRanges_cong) auto
  have c: "v \<inter> set all \<noteq> {} \<longrightarrow>
        zipDiffSubset E (Val v) init all (Some ref) = zipDiffSubset E (Val (v \<inter> set all)) init all (Some ref)"
    using b by (auto simp: zipDiffSubset_def)
  from a b c show ?thesis by blast
qed



theorem excluded_ids_not_encoded_witness:
  "emitted sampleEnv (selectedPos {''x'', ''y''} [''x''] [''x'', ''y'']) ''A''
   \<and> selectedPos {''x'', ''y''} [''x''] [''x'', ''y''] = {0}
   \<and> subsetRanges sampleEnv {''x'', ''y''} [''x''] [''x'', ''y''] = [''A'']
   \<and> {''x'', ''y''} \<inter> set [''x''] \<noteq> {}
   \<and> zipDiffSubset sampleEnv (Val {''x'', ''y''}) Undefined [''x''] (Some [''x'', ''y''])
       = zipDiffSubset sampleEnv (Val ({''x'', ''y''} \<inter> set [''x''])) Undefined [''x''] (Some [''x'', ''y''])"
proof -
  note t = excluded_ids_not_encoded [where E = sampleEnv and v = "{''x'', ''y''}" and all = "[''x'']"
      and ref = "[''x'', ''y'']" and init = Undefined]
  have ne: "{''x'', ''y''} \<inter> set [''x''] \<noteq> {}" by simp
  have sp: "selectedPos {''x'', ''y''} [''x''] [''x'', ''y''] = {0}"
    by (simp add: selectedPos_def upt_rec)
  have rs: "subsetRanges sampleEnv {''x'', ''y''} [''x''] [''x'', ''y''] = [''A'']"
    by (simp add: subsetRanges_def flushRun_def sampleEnv_def sample_nToId_small ZBASE64ABC_def)
  from t have "\<forall>r\<in>set (subsetRanges sampleEnv {''x'', ''y''} [''x''] [''x'', ''y'']).
      emitted sampleEnv (selectedPos {''x'', ''y''} [''x''] [''x'', ''y'']) r"
    by (rule conjunct1)
  then have a: "emitted sampleEnv (selectedPos {''x'', ''y''} [''x''] [''x'', ''y'']) ''A''"
    unfolding rs by simp
  from t ne have c: "zipDiffSubset sampleEnv (Val {''x'', ''y''}) Undefined [''x''] (Some [''x'', ''y''])
       = zipDiffSubset sampleEnv (Val ({''x'', ''y''} \<inter> set [''x''])) Undefined [''x''] (Some [''x'', ''y''])"
    by blast
  from a sp rs ne c show ?thesis by (intro conjI)
qed

text \<open>
  C10. With \<open>ref = [x, y, z]\<close>, \<open>all = [x, z]\<close>, the selection \<open>{x, z}\<close> and no baseline,
  where \<open>y\<close> is neither \<open>x\<close> nor \<open>z\<close>: the run stays open across \<open>y\<close>, the token is the one
  range from position 0 to position 2, and \<open>parseSubset\<close> of it over \<open>ref\<close> returns
  \<open>{x, y, z}\<close>, a strict superset of the selection.
\<close>

theorem open_run_superset:
  assumes ok: "compactOk E 3" and y: "y \<noteq> x" "y \<noteq> z"
  shows "zipDiffSubset E (Val {x, z}) Undefined [x, z] (Some [x, y, z])
           = nToId E 0 @ ZARRAYSEP E # nToId E 2
       \<and> parseSubset E (Val (zipDiffSubset E (Val {x, z}) Undefined [x, z] (Some [x, y, z]))) [x, y, z]
           = Val {x, y, z}
       \<and> {x, z} \<subset> {x, y, z}"
proof -
  have enc: "zipDiffSubset E (Val {x, z}) Undefined [x, z] (Some [x, y, z])
           = nToId E 0 @ ZARRAYSEP E # nToId E 2"
    using y by (simp add: zipDiffSubset_def subsetRanges_def flushRun_def)
  have "render E 0 2 = nToId E 0 @ ZARRAYSEP E # nToId E 2" by (simp add: render_def)
  moreover have "wfRange E (render E 0 2)" using render_wf [OF ok, of 0 2] by simp
  moreover have "rangeSlice E [x, y, z] (render E 0 2) = [x, y, z]"
    using render_slice [OF ok, of 0 2 "[x, y, z]"] by (simp add: slice_def)
  ultimately have "parseSubset E (Val (nToId E 0 @ ZARRAYSEP E # nToId E 2)) [x, y, z] = Val {x, y, z}"
    using parseSubset_join [where rs = "[render E 0 2]" and E = E and dict = "[x, y, z]"]
    by auto
  with enc y show ?thesis by auto
qed

theorem open_run_superset_witness:
  "compactOk sampleEnv 3 \<and> ''y'' \<noteq> ''x'' \<and> ''y'' \<noteq> ''z''
   \<and> zipDiffSubset sampleEnv (Val {''x'', ''z''}) Undefined [''x'', ''z''] (Some [''x'', ''y'', ''z'']) = ''A~C''
   \<and> parseSubset sampleEnv (Val ''A~C'') [''x'', ''y'', ''z''] = Val {''x'', ''y'', ''z''}
   \<and> {''x'', ''z''} \<subset> {''x'', ''y'', ''z''}"
proof -
  have n: "nToId sampleEnv 0 @ ZARRAYSEP sampleEnv # nToId sampleEnv 2 = ''A~C''"
    by (simp add: sampleEnv_def sample_nToId_small ZBASE64ABC_def)
  have yx: "''y'' \<noteq> ''x''" and yz: "''y'' \<noteq> ''z''" by simp_all
  note t = open_run_superset [OF sample_compactOk yx yz]
  from t have e: "zipDiffSubset sampleEnv (Val {''x'', ''z''}) Undefined [''x'', ''z'']
      (Some [''x'', ''y'', ''z'']) = ''A~C''"
    unfolding n by (rule conjunct1)
  from t have d: "parseSubset sampleEnv (Val ''A~C'') [''x'', ''y'', ''z''] = Val {''x'', ''y'', ''z''}"
    unfolding e by (rule conjunct1 [OF conjunct2])
  from t have s: "{''x'', ''z''} \<subset> {''x'', ''y'', ''z''}"
    by (rule conjunct2 [OF conjunct2])
  from sample_compactOk yx yz e d s show ?thesis by (intro conjI)
qed



section \<open>The choice of the container\<close>

lemmas sample_text_defs = decodedText_def bareContainer_def hashContainer_def zipContainer_def
  sample_searchToString_def sampleEnv_def

lemma equalLengths_bare: "decodedText sampleEnv (bareContainer equalLengths)
   = ''o=iron-ore&odr=2&ifr=1500&bmi=100&bre=100&cfa=10&cma=100&cfp=1&cun=1000000&cex=100&v=11''"
  by (simp add: sample_text_defs equalLengths_def sampleCosts_def)

lemma equalLengths_zip: "decodedText sampleEnv (zipContainer sampleEnv equalLengths)
   = ''z=o=A&odr=2&ifr=1500&bmi=100&bre=100&cfa=10&cma=100&cfp=1&cun=1000000&cex=100&v=11&v=11''"
  by (simp add: sample_text_defs equalLengths_def sampleCosts_def)

lemma fiveObjectives_bare: "decodedText sampleEnv (bareContainer fiveObjectives)
   = ''o=advanced-circuit&o=electronic-circuit&o=processing-unit&o=rocket-control-unit&o=low-density-structure&v=11''"
  by (simp add: sample_text_defs fiveObjectives_def)

lemma fiveObjectives_zip: "decodedText sampleEnv (zipContainer sampleEnv fiveObjectives)
   = ''z=o=A&o=B&o=C&o=D&o=E&v=11&v=11''"
  by (simp add: sample_text_defs fiveObjectives_def)

lemma oneObjective_bare: "decodedText sampleEnv (bareContainer oneObjective) = ''o=coal&v=11''"
  by (simp add: sample_text_defs oneObjective_def)

lemma oneObjective_zip: "decodedText sampleEnv (zipContainer sampleEnv oneObjective) = ''z=o=A&v=11&v=11''"
  by (simp add: sample_text_defs oneObjective_def)

lemma sample_MIN_ZIP: "MIN_ZIP sampleEnv = 75"
  by (simp add: sampleEnv_def)

text \<open>
  C2 (as amended). \<open>getHash\<close> returns the bare container when the decoded length of the
  bare container is less than the larger of the decoded length of the compressed
  container and \<open>MIN_ZIP\<close>; it returns the compressed container in every other case, that
  is, when the bare length is at least the compressed length and at least \<open>MIN_ZIP\<close>.
\<close>

theorem getHash_choice:
  "(length (decodedText E (bareContainer z)) < length (decodedText E (zipContainer E z))
      \<or> length (decodedText E (bareContainer z)) < MIN_ZIP E
     \<longrightarrow> getHash E z = bareContainer z)
   \<and> (length (decodedText E (zipContainer E z)) \<le> length (decodedText E (bareContainer z))
      \<and> MIN_ZIP E \<le> length (decodedText E (bareContainer z))
     \<longrightarrow> getHash E z = zipContainer E z)"
  by (auto simp: getHash_def Let_def)

theorem getHash_choice_witness:
  "length (decodedText sampleEnv (bareContainer oneObjective)) = 11
   \<and> length (decodedText sampleEnv (zipContainer sampleEnv oneObjective)) = 15
   \<and> getHash sampleEnv oneObjective = bareContainer oneObjective
   \<and> length (decodedText sampleEnv (bareContainer fiveObjectives)) = 108
   \<and> length (decodedText sampleEnv (zipContainer sampleEnv fiveObjectives)) = 31
   \<and> MIN_ZIP sampleEnv = 75
   \<and> getHash sampleEnv fiveObjectives = zipContainer sampleEnv fiveObjectives"
proof -
  have b1: "length (decodedText sampleEnv (bareContainer oneObjective)) = 11"
    unfolding oneObjective_bare by simp
  have z1: "length (decodedText sampleEnv (zipContainer sampleEnv oneObjective)) = 15"
    unfolding oneObjective_zip by simp
  have b5: "length (decodedText sampleEnv (bareContainer fiveObjectives)) = 108"
    unfolding fiveObjectives_bare by simp
  have z5: "length (decodedText sampleEnv (zipContainer sampleEnv fiveObjectives)) = 31"
    unfolding fiveObjectives_zip by simp
  have g1: "getHash sampleEnv oneObjective = bareContainer oneObjective"
    using getHash_choice [of sampleEnv oneObjective] b1 z1 by simp
  have g5: "getHash sampleEnv fiveObjectives = zipContainer sampleEnv fiveObjectives"
    using getHash_choice [of sampleEnv fiveObjectives] b5 z5 sample_MIN_ZIP by simp
  from b1 z1 g1 b5 z5 sample_MIN_ZIP g5 show ?thesis by (intro conjI)
qed

text \<open>
  C2 as stated fails: at equal decoded lengths of 87, above \<open>MIN_ZIP = 75\<close>, the length of
  the compressed container is not less than \<open>max (bareLength, MIN_ZIP)\<close>, and \<open>getHash\<close>
  returns the compressed container.
\<close>

theorem getHash_counterexample:
  "length (decodedText sampleEnv (zipContainer sampleEnv equalLengths)) = 87
   \<and> length (decodedText sampleEnv (bareContainer equalLengths)) = 87
   \<and> MIN_ZIP sampleEnv = 75
   \<and> \<not> (87 < max (87 :: nat) 75)
   \<and> getHash sampleEnv equalLengths = zipContainer sampleEnv equalLengths
   \<and> getHash sampleEnv equalLengths \<noteq> bareContainer equalLengths"
proof -
  have z: "length (decodedText sampleEnv (zipContainer sampleEnv equalLengths)) = 87"
    unfolding equalLengths_zip by simp
  have b: "length (decodedText sampleEnv (bareContainer equalLengths)) = 87"
    unfolding equalLengths_bare by simp
  have m: "MIN_ZIP sampleEnv = 75" by (simp add: sampleEnv_def)
  have g: "getHash sampleEnv equalLengths = zipContainer sampleEnv equalLengths"
    by (simp add: getHash_def Let_def z b m)
  have n: "zipContainer sampleEnv equalLengths \<noteq> bareContainer equalLengths"
    by (simp add: zipContainer_def bareContainer_def equalLengths_def sampleEnv_def sampleCosts_def)
  from z b m g n show ?thesis by simp
qed

text \<open>
  C3 (as amended). If the decoded length of the bare container is less than \<open>MIN_ZIP\<close>,
  \<open>getHash\<close> returns the bare container.
\<close>

theorem getHash_below_MIN_ZIP:
  "length (decodedText E (bareContainer z)) < MIN_ZIP E \<Longrightarrow> getHash E z = bareContainer z"
  by (auto simp: getHash_def Let_def)

theorem getHash_below_MIN_ZIP_witness:
  "length (decodedText sampleEnv (bareContainer oneObjective)) < MIN_ZIP sampleEnv
   \<and> getHash sampleEnv oneObjective = bareContainer oneObjective"
proof -
  have b: "length (decodedText sampleEnv (bareContainer oneObjective)) < MIN_ZIP sampleEnv"
    unfolding oneObjective_bare sample_MIN_ZIP by simp
  from b getHash_below_MIN_ZIP [OF b] show ?thesis by (intro conjI)
qed

text \<open>
  C3 as stated fails: a compressed container of decoded length 31, shorter than
  \<open>MIN_ZIP = 75\<close>, is selected when the bare container has length 108.
\<close>

theorem getHash_below_MIN_ZIP_counterexample:
  "length (decodedText sampleEnv (zipContainer sampleEnv fiveObjectives)) < MIN_ZIP sampleEnv
   \<and> getHash sampleEnv fiveObjectives = zipContainer sampleEnv fiveObjectives
   \<and> getHash sampleEnv fiveObjectives \<noteq> bareContainer fiveObjectives"
proof -
  have z: "length (decodedText sampleEnv (zipContainer sampleEnv fiveObjectives)) = 31"
    unfolding fiveObjectives_zip by simp
  have b: "length (decodedText sampleEnv (bareContainer fiveObjectives)) = 108"
    unfolding fiveObjectives_bare by simp
  have g: "getHash sampleEnv fiveObjectives = zipContainer sampleEnv fiveObjectives"
    by (simp add: getHash_def Let_def z b sample_MIN_ZIP)
  have n: "zipContainer sampleEnv fiveObjectives \<noteq> bareContainer fiveObjectives"
    by (simp add: zipContainer_def bareContainer_def fiveObjectives_def sampleEnv_def)
  from z g n sample_MIN_ZIP show ?thesis by simp
qed



section \<open>The parsers of the primitive fields\<close>

text \<open>
  C4 (as amended). For every parser of the primitive field codec: an absent input or the
  empty string yields \<open>undefined\<close>. The explicit-null sentinel \<open>ZNULL\<close> yields \<open>null\<close> in
  \<open>parseSubset\<close> and \<open>undefined\<close> in \<open>parseString\<close>, \<open>parseBool\<close>, \<open>parseNumber\<close>,
  \<open>parseRational\<close> and \<open>parseArray\<close>. The explicit-empty sentinel \<open>ZEMPTY\<close> yields the empty
  collection in the parsers of collections, \<open>parseArray\<close> and \<open>parseSubset\<close>. Any other
  input decodes per its value type, and for dictionary-bound values the result is
  \<open>dict[expand(token)]\<close>, for a string and for each element of an array.
\<close>

theorem parse_primitives:
  assumes z: "ZEMPTY E \<noteq> []" "ZEMPTY E \<noteq> ZNULL E" "ZNULL E \<noteq> []"
  shows "(noLength v \<longrightarrow>
            parseString E v None = Undefined \<and> parseString E v (Some d) = Undefined
          \<and> parseBool E v = Undefined \<and> parseNumber E v False = Undefined
          \<and> parseRational E v = Inr Undefined
          \<and> parseArray E v None = Undefined \<and> parseArray E v (Some d) = Undefined
          \<and> parseSubset E v d = Undefined)
       \<and> parseSubset E (Val (ZNULL E)) d = Null
       \<and> parseString E (Val (ZNULL E)) None = Undefined
       \<and> parseString E (Val (ZNULL E)) (Some d) = Undefined
       \<and> parseBool E (Val (ZNULL E)) = Undefined
       \<and> parseNumber E (Val (ZNULL E)) False = Undefined
       \<and> parseRational E (Val (ZNULL E)) = Inr Undefined
       \<and> parseArray E (Val (ZNULL E)) None = Undefined
       \<and> parseArray E (Val (ZNULL E)) (Some d) = Undefined
       \<and> parseArray E (Val (ZEMPTY E)) None = Val []
       \<and> parseArray E (Val (ZEMPTY E)) (Some d) = Val []
       \<and> parseSubset E (Val (ZEMPTY E)) d = Val {}
       \<and> (t \<noteq> [] \<and> t \<noteq> ZNULL E \<longrightarrow>
            parseString E (Val t) None = Val t
          \<and> parseString E (Val t) (Some d) = at_index d (idToN E t)
          \<and> parseBool E (Val t) = Val (t = ZTRUE E)
          \<and> parseNumber E (Val t) False = Val (Number E t)
          \<and> parseRational E (Val t) = (case rational E t of Inl e \<Rightarrow> Inl e | Inr r \<Rightarrow> Inr (Val r)))
       \<and> (t \<noteq> [] \<and> t \<noteq> ZNULL E \<and> t \<noteq> ZEMPTY E \<longrightarrow>
            parseArray E (Val t) None = Val (map Val (split_sep (ZARRAYSEP E) t))
          \<and> parseArray E (Val t) (Some d)
              = Val (map (\<lambda>a. at_index d (idToN E a)) (split_sep (ZARRAYSEP E) t))
          \<and> parseSubset E (Val t) d
              = Val (\<Union>r\<in>set (split_sep (ZFIELDSEP E) t). set (rangeSlice E d r)))"
proof -
  have a: "parseString E v None = Undefined \<and> parseString E v (Some d) = Undefined
          \<and> parseBool E v = Undefined \<and> parseNumber E v False = Undefined
          \<and> parseRational E v = Inr Undefined
          \<and> parseArray E v None = Undefined \<and> parseArray E v (Some d) = Undefined
          \<and> parseSubset E v d = Undefined" if "noLength v"
    using that
    by (cases v) (simp_all add: parseString_def parseStringBare_def parseNString_def parseBool_def
        parseNumber_def parseRational_def parseArray_def parseArrayBare_def parseNArray_def
        parseSubset_def absent_def)
  have b: "parseSubset E (Val (ZNULL E)) d = Null"
    using z by (simp add: parseSubset_def)
  have c: "parseString E (Val (ZNULL E)) None = Undefined"
    "parseString E (Val (ZNULL E)) (Some d) = Undefined"
    "parseBool E (Val (ZNULL E)) = Undefined"
    "parseNumber E (Val (ZNULL E)) False = Undefined"
    "parseRational E (Val (ZNULL E)) = Inr Undefined"
    "parseArray E (Val (ZNULL E)) None = Undefined"
    "parseArray E (Val (ZNULL E)) (Some d) = Undefined"
    by (simp_all add: parseString_def parseStringBare_def parseNString_def parseBool_def
        parseNumber_def parseRational_def parseArray_def parseArrayBare_def parseNArray_def
        absent_def)
  have e: "parseArray E (Val (ZEMPTY E)) None = Val []"
    "parseArray E (Val (ZEMPTY E)) (Some d) = Val []"
    "parseSubset E (Val (ZEMPTY E)) d = Val {}"
    using z by (simp_all add: parseArray_def parseArrayBare_def parseNArray_def parseSubset_def
        absent_def)
  have f: "parseString E (Val t) None = Val t
          \<and> parseString E (Val t) (Some d) = at_index d (idToN E t)
          \<and> parseBool E (Val t) = Val (t = ZTRUE E)
          \<and> parseNumber E (Val t) False = Val (Number E t)
          \<and> parseRational E (Val t) = (case rational E t of Inl e \<Rightarrow> Inl e | Inr r \<Rightarrow> Inr (Val r))"
    if "t \<noteq> []" "t \<noteq> ZNULL E"
    using that
    by (simp add: parseString_def parseStringBare_def parseNString_def parseBool_def
        parseNumber_def parseRational_def absent_def)
  have g: "parseArray E (Val t) None = Val (map Val (split_sep (ZARRAYSEP E) t))
          \<and> parseArray E (Val t) (Some d)
              = Val (map (\<lambda>a. at_index d (idToN E a)) (split_sep (ZARRAYSEP E) t))
          \<and> parseSubset E (Val t) d
              = Val (\<Union>r\<in>set (split_sep (ZFIELDSEP E) t). set (rangeSlice E d r))"
    if "t \<noteq> []" "t \<noteq> ZNULL E" "t \<noteq> ZEMPTY E"
    using that
    by (simp add: parseArray_def parseArrayBare_def parseNArray_def parseSubset_def absent_def
        fold_union)
  from a b c e f g show ?thesis by blast
qed

theorem parse_primitives_witness:
  "ZEMPTY sampleEnv \<noteq> [] \<and> ZEMPTY sampleEnv \<noteq> ZNULL sampleEnv \<and> ZNULL sampleEnv \<noteq> []
   \<and> noLength (Val [])
   \<and> parseString sampleEnv (Val []) None = Undefined
   \<and> parseSubset sampleEnv (Val []) [''a'', ''b''] = Undefined
   \<and> parseSubset sampleEnv (Val ''?'') [''a'', ''b''] = Null
   \<and> parseArray sampleEnv (Val ''_'') None = Val []
   \<and> ''B'' \<noteq> [] \<and> ''B'' \<noteq> ZNULL sampleEnv \<and> ''B'' \<noteq> ZEMPTY sampleEnv
   \<and> parseString sampleEnv (Val ''B'') None = Val ''B''
   \<and> parseString sampleEnv (Val ''B'') (Some [''a'', ''b'']) = Val ''b''"
proof -
  have z: "ZEMPTY sampleEnv \<noteq> []" "ZEMPTY sampleEnv \<noteq> ZNULL sampleEnv" "ZNULL sampleEnv \<noteq> []"
    by (simp_all add: sampleEnv_def)
  have zn: "ZNULL sampleEnv = ''?''" and ze: "ZEMPTY sampleEnv = ''_''" by (simp_all add: sampleEnv_def)
  have n: "noLength (Val [])" by simp
  have t: "''B'' \<noteq> []" "''B'' \<noteq> ZNULL sampleEnv" "''B'' \<noteq> ZEMPTY sampleEnv"
    by (simp_all add: sampleEnv_def)
  note p = parse_primitives [OF z, where v = "Val []" and d = "[''a'', ''b'']" and t = "''B''"]
  from p n have a: "parseString sampleEnv (Val []) None = Undefined"
    and b: "parseSubset sampleEnv (Val []) [''a'', ''b''] = Undefined" by blast+
  from p have c: "parseSubset sampleEnv (Val ''?'') [''a'', ''b''] = Null" unfolding zn by blast
  from p have e: "parseArray sampleEnv (Val ''_'') None = Val []" unfolding ze by blast
  from p t have f: "parseString sampleEnv (Val ''B'') None = Val ''B''" by blast
  have i: "at_index [''a'', ''b''] (idToN sampleEnv ''B'') = Val ''b''"
    by (simp add: at_index_def sampleEnv_def sample_idToN_def ZBASE64ABC_def)
  from p t have g: "parseString sampleEnv (Val ''B'') (Some [''a'', ''b'']) = Val ''b''"
    unfolding i by blast
  from z n a b c e t f g show ?thesis by (intro conjI)
qed

text \<open>
  C4 as stated fails: \<open>parseString\<close> of the explicit-null sentinel is \<open>undefined\<close>, not
  \<open>null\<close>.
\<close>

theorem parse_primitives_counterexample:
  "parseString sampleEnv (Val (ZNULL sampleEnv)) None = Undefined
   \<and> parseString sampleEnv (Val (ZNULL sampleEnv)) None \<noteq> Null"
  by (simp add: parseString_def parseStringBare_def absent_def)


text \<open>
  C8 (as amended). When a dictionary-bound value is decoded and its expanded index is out
  of the range of the dictionary, \<open>parseNString\<close> returns \<open>undefined\<close>, as it does for an
  absent field, and \<open>parseNArray\<close> returns the array with \<open>undefined\<close> at each position
  whose index is out of range and the dictionary entry at every other position. No error
  is signalled: whether \<open>unzipObjective\<close> returns an objective does not depend on the
  dictionary.
\<close>

theorem out_of_range_index:
  assumes t: "t \<noteq> []" "t \<noteq> ZNULL E"
  shows "(length d \<le> idToN E t \<longrightarrow>
            parseNString E (Val t) d = Undefined \<and> parseString E (Val t) (Some d) = Undefined)
       \<and> (t \<noteq> ZEMPTY E \<longrightarrow>
            parseNArray E (Val t) d
              = Val (map (\<lambda>a. if idToN E a < length d then Val (d ! idToN E a) else Undefined)
                       (split_sep (ZARRAYSEP E) t))
          \<and> parseArray E (Val t) (Some d) = parseNArray E (Val t) d)
       \<and> ((\<exists>ob. unzipObjective E ms bs (Some h) idx rcd = Inr ob)
            = (\<exists>ob. unzipObjective E ms bs None idx rcd = Inr ob))"
proof -
  have a: "(length d \<le> idToN E t \<longrightarrow>
            parseNString E (Val t) d = Undefined \<and> parseString E (Val t) (Some d) = Undefined)
       \<and> (t \<noteq> ZEMPTY E \<longrightarrow>
            parseNArray E (Val t) d
              = Val (map (\<lambda>a. if idToN E a < length d then Val (d ! idToN E a) else Undefined)
                       (split_sep (ZARRAYSEP E) t))
          \<and> parseArray E (Val t) (Some d) = parseNArray E (Val t) d)"
    using t
    by (simp add: parseNString_def parseString_def parseStringBare_def absent_def at_index_def
        parseNArray_def parseArray_def parseArrayBare_def)
  have b: "(\<exists>ob. unzipObjective E ms bs (Some h) idx rcd = Inr ob)
            = (\<exists>ob. unzipObjective E ms bs None idx rcd = Inr ob)"
    by (auto simp: unzipObjective_def Let_def bindE_def split: sum.splits)
  from a b show ?thesis by blast
qed

theorem out_of_range_index_witness:
  "''F'' \<noteq> [] \<and> ''F'' \<noteq> ZNULL sampleEnv \<and> length [''a''] \<le> idToN sampleEnv ''F''
   \<and> parseNString sampleEnv (Val ''F'') [''a''] = Undefined
   \<and> parseString sampleEnv (Val ''F'') (Some [''a'']) = Undefined
   \<and> unzipObjective sampleEnv [] [] (Some oneMachine) 1 ''A****F''
       = Inr ((plainObjective ''iron-plate'')\<lparr>machineId := Undefined\<rparr>)"
proof -
  have u: "unzipObjective sampleEnv [] [] (Some oneMachine) 1 ''A****F''
       = Inr ((plainObjective ''iron-plate'')\<lparr>machineId := Undefined\<rparr>)"
    by (simp add: unzipObjective_def bindE_def oneMachine_def plainObjective_def at_index_def
        parseRational_def parseNumber_def parseString_def parseNString_def parseStringBare_def
        parseArray_def parseArrayBare_def mapArray_def absent_def sampleEnv_def
        sample_idToN_def ZBASE64ABC_def sample_numToString_def digit_string.simps)
  have t: "''F'' \<noteq> []" "''F'' \<noteq> ZNULL sampleEnv" by (simp_all add: sampleEnv_def)
  have r: "length [''a''] \<le> idToN sampleEnv ''F''"
    by (simp add: sampleEnv_def sample_idToN_def ZBASE64ABC_def)
  from out_of_range_index [OF t, where d = "[''a'']"] r
  have "parseNString sampleEnv (Val ''F'') [''a''] = Undefined
      \<and> parseString sampleEnv (Val ''F'') (Some [''a'']) = Undefined"
    by blast
  with t r u show ?thesis by simp
qed

text \<open>
  C8 as stated fails: over a dictionary of one id, the token whose index is 5 decodes to
  \<open>undefined\<close>, the result of an absent field, and an array token holding it decodes to an
  array with \<open>undefined\<close> in its place; neither decode signals an error.
\<close>

theorem out_of_range_index_counterexample:
  "\<not> idToN sampleEnv ''F'' < length [''a'']
   \<and> parseNString sampleEnv (Val ''F'') [''a''] = Undefined
   \<and> parseNString sampleEnv (Val ''F'') [''a''] = parseNString sampleEnv Undefined [''a'']
   \<and> parseNArray sampleEnv (Val ''A~F'') [''a''] = Val [Val ''a'', Undefined]"
  by (simp add: parseNString_def parseStringBare_def absent_def at_index_def
      parseNArray_def parseArrayBare_def sampleEnv_def sample_idToN_def ZBASE64ABC_def)


section \<open>The diff codecs\<close>

lemma zArrayText_absent: "isNullish v \<Longrightarrow> zArrayText E v = ZNULL E"
  by (cases v) (simp_all add: zArrayText_def)

lemma numTexts_absent: "isNullish v \<Longrightarrow> isNullish (numTexts E v)"
  by (cases v) (simp_all add: numTexts_def)

text \<open>
  C5 (as amended). For \<open>zipDiffString\<close>, \<open>zipDiffNumber\<close>, \<open>zipDiffRational\<close>,
  \<open>zipDiffBool\<close>, \<open>zipDiffIndices\<close> and \<open>zipDiffArray\<close>, the diff of a value against itself
  is the empty string; for \<open>zipDiffSubset\<close> it is when the value is absent or the empty
  set. The diff of an absent value against a present baseline is \<open>ZNULL\<close>, for the two
  array codecs when the text of the baseline is not \<open>ZNULL\<close> itself. The diff of an empty
  collection against a baseline that is absent or not empty is \<open>ZEMPTY\<close> for
  \<open>zipDiffSubset\<close> and, when the text of the baseline is not \<open>ZEMPTY\<close> itself, for
  \<open>zipDiffIndices\<close> and for the bare component of \<open>zipDiffArray\<close>.
\<close>

theorem diff_identity:
  shows "zipDiffString E s s d = Str []
       \<and> zipDiffNumber E n n = []
       \<and> zipDiffRational E r r = []
       \<and> zipDiffBool E b b = []
       \<and> zipDiffIndices E ix ix = Str []
       \<and> zipDiffArray E a a d = Str []
       \<and> (isNullish u \<or> u = Val {} \<longrightarrow> zipDiffSubset E u u all h = [])
       \<and> (isNullish s' \<longrightarrow> zipDiffString E s' (Val sb) d = Str (ZNULL E))
       \<and> (isNullish n' \<longrightarrow> zipDiffNumber E n' (Val nb) = ZNULL E)
       \<and> (isNullish r' \<longrightarrow> zipDiffRational E r' (Val rb) = ZNULL E)
       \<and> (isNullish u' \<longrightarrow> zipDiffSubset E u' (Val ub) all h = ZNULL E)
       \<and> (isNullish ix' \<and> zArrayText E (numTexts E (Val ib)) \<noteq> ZNULL E \<longrightarrow>
            zipDiffIndices E ix' (Val ib) = Str (ZNULL E))
       \<and> (isNullish a' \<and> zArrayText E (Val ab) \<noteq> ZNULL E \<longrightarrow>
            zipDiffArray E a' (Val ab) d = Str (ZNULL E))
       \<and> (ui \<noteq> Val {} \<longrightarrow> zipDiffSubset E (Val {}) ui all h = ZEMPTY E)
       \<and> (zArrayText E (numTexts E ii) \<noteq> ZEMPTY E \<longrightarrow> zipDiffIndices E (Val []) ii = Str (ZEMPTY E))
       \<and> (zArrayText E ai \<noteq> ZEMPTY E \<longrightarrow> (\<exists>hashed. zipDiffArray E (Val []) ai d = Pair (ZEMPTY E) hashed))"
proof -
  have same: "zipDiffString E s s d = Str []" "zipDiffNumber E n n = []" "zipDiffBool E b b = []"
    "zipDiffIndices E ix ix = Str []" "zipDiffArray E a a d = Str []"
    by (simp_all add: zipDiffString_def zipDiffNumber_def zipDiffBool_def zipDiffIndices_def
        zipDiffArray_def)
  have rat: "zipDiffRational E r r = []"
    by (cases r) (simp_all add: zipDiffRational_def)
  have sub: "zipDiffSubset E u u all h = []" if "isNullish u \<or> u = Val {}"
    using that by (cases u) (auto simp: zipDiffSubset_def)
  have n1: "zipDiffString E s' (Val sb) d = Str (ZNULL E)" if "isNullish s'"
    using that by (cases s') (simp_all add: zipDiffString_def)
  have n2: "zipDiffNumber E n' (Val nb) = ZNULL E" if "isNullish n'"
    using that by (cases n') (simp_all add: zipDiffNumber_def)
  have n3: "zipDiffRational E r' (Val rb) = ZNULL E" if "isNullish r'"
    using that by (cases r') (simp_all add: zipDiffRational_def)
  have n4: "zipDiffSubset E u' (Val ub) all h = ZNULL E" if "isNullish u'"
    using that by (cases u') (simp_all add: zipDiffSubset_def)
  have n5: "zipDiffIndices E ix' (Val ib) = Str (ZNULL E)"
    if "isNullish ix'" "zArrayText E (numTexts E (Val ib)) \<noteq> ZNULL E"
    using that zArrayText_absent [OF numTexts_absent [OF that(1)], of E E]
    by (auto simp: zipDiffIndices_def Let_def)
  have n6: "zipDiffArray E a' (Val ab) d = Str (ZNULL E)"
    if "isNullish a'" "zArrayText E (Val ab) \<noteq> ZNULL E"
    using that zArrayText_absent [OF that(1), of E]
    by (cases a') (auto simp: zipDiffArray_def Let_def)
  have e1: "zipDiffSubset E (Val {}) ui all h = ZEMPTY E" if "ui \<noteq> Val {}"
    using that by (simp add: zipDiffSubset_def)
  have e2: "zipDiffIndices E (Val []) ii = Str (ZEMPTY E)" if "zArrayText E (numTexts E ii) \<noteq> ZEMPTY E"
    using that by (auto simp: zipDiffIndices_def Let_def zArrayText_def numTexts_def)
  have e3: "\<exists>hashed. zipDiffArray E (Val []) ai d = Pair (ZEMPTY E) hashed" if "zArrayText E ai \<noteq> ZEMPTY E"
    using that by (auto simp: zipDiffArray_def Let_def zArrayText_def)
  from same rat sub n1 n2 n3 n4 n5 n6 e1 e2 e3 show ?thesis by blast
qed

lemma empty_array_hashed:
  "zipDiffArray sampleEnv (Val []) Undefined [''a''] = Pair ''_'' []"
  by (simp add: zipDiffArray_def zArrayText_def sampleEnv_def)

theorem diff_identity_witness:
  "zipDiffRational sampleEnv (Val (1 / 2)) (Val (2 / 4)) = []
   \<and> zipDiffArray sampleEnv (Val [''a'', ''b'']) (Val [''a'', ''b'']) [''a'', ''b''] = Str []
   \<and> isNullish (Undefined :: string set nullable) \<and> isNullish (Undefined :: string list nullable)
   \<and> zipDiffSubset sampleEnv Undefined Undefined [''a''] None = []
   \<and> zipDiffSubset sampleEnv Undefined (Val {''a''}) [''a''] None = ''?''
   \<and> zArrayText sampleEnv (Val [''a'']) \<noteq> ZNULL sampleEnv
   \<and> zipDiffArray sampleEnv Undefined (Val [''a'']) [''a''] = Str ''?''
   \<and> Val {''a''} \<noteq> (Val {} :: string set nullable)
   \<and> zipDiffSubset sampleEnv (Val {}) (Val {''a''}) [''a''] None = ''_''
   \<and> zArrayText sampleEnv Undefined \<noteq> ZEMPTY sampleEnv
   \<and> zipDiffArray sampleEnv (Val []) Undefined [''a''] = Pair ''_'' []"
proof -
  have zn: "ZNULL sampleEnv = ''?''" and ze: "ZEMPTY sampleEnv = ''_''" by (simp_all add: sampleEnv_def)
  have half: "(2 / 4 :: rat) = 1 / 2" by simp
  note p = diff_identity [where E = sampleEnv and s = Undefined and n = Undefined
      and r = "Val (1 / 2)" and b = True and ix = Undefined and a = "Val [''a'', ''b'']"
      and d = "[''a'', ''b'']" and u = Undefined and all = "[''a'']" and h = None
      and s' = Undefined and sb = "[]" and n' = Undefined and nb = 0 and r' = Undefined and rb = 0
      and u' = Undefined and ub = "{''a''}" and ix' = Undefined and ib = "[]"
      and a' = Undefined and ab = "[''a'']" and ui = "Val {''a''}" and ii = Undefined
      and ai = Undefined]
  note q = diff_identity [where E = sampleEnv and s = Undefined and n = Undefined
      and r = Undefined and b = True and ix = Undefined and a = Undefined
      and d = "[''a'']" and u = Undefined and all = "[''a'']" and h = None
      and s' = Undefined and sb = "[]" and n' = Undefined and nb = 0 and r' = Undefined and rb = 0
      and u' = Undefined and ub = "{''a''}" and ix' = Undefined and ib = "[]"
      and a' = Undefined and ab = "[''a'']" and ui = "Val {''a''}" and ii = Undefined
      and ai = Undefined]
  have i1: "isNullish (Undefined :: string set nullable)"
    and i2: "isNullish (Undefined :: string list nullable)" by simp_all
  have t1: "zArrayText sampleEnv (Val [''a'']) \<noteq> ZNULL sampleEnv"
    by (simp add: zArrayText_def sampleEnv_def)
  have t2: "Val {''a''} \<noteq> (Val {} :: string set nullable)" by simp
  have t3: "zArrayText sampleEnv Undefined \<noteq> ZEMPTY sampleEnv"
    by (simp add: zArrayText_def sampleEnv_def)
  from p have a: "zipDiffRational sampleEnv (Val (1 / 2)) (Val (2 / 4)) = []"
    unfolding half by (elim conjE)
  from p have b: "zipDiffArray sampleEnv (Val [''a'', ''b'']) (Val [''a'', ''b'']) [''a'', ''b''] = Str []"
    by (elim conjE)
  from p have c: "zipDiffSubset sampleEnv Undefined Undefined [''a''] None = []"
    by (elim conjE) simp
  from p have e: "zipDiffSubset sampleEnv Undefined (Val {''a''}) [''a''] None = ''?''"
    by (elim conjE) (simp add: zn)
  from q t1 have f: "zipDiffArray sampleEnv Undefined (Val [''a'']) [''a''] = Str ''?''"
    by (elim conjE) (simp add: zn)
  from p have g: "zipDiffSubset sampleEnv (Val {}) (Val {''a''}) [''a''] None = ''_''"
    by (elim conjE) (simp add: ze)
  from q t3 have "\<exists>hashed. zipDiffArray sampleEnv (Val []) Undefined [''a''] = Pair ''_'' hashed"
    by (elim conjE) (simp add: ze)
  then have h: "zipDiffArray sampleEnv (Val []) Undefined [''a''] = Pair ''_'' []"
    using empty_array_hashed by simp
  from a b i1 i2 c e t1 f t2 g t3 h show ?thesis by (intro conjI)
qed

text \<open>
  C5 as stated fails: \<open>zipDiffSubset\<close> does not compare a selection that is not empty with
  its baseline, so the diff of \<open>{a}\<close> against \<open>{a}\<close> is the range token of \<open>a\<close>, not the
  empty string.
\<close>

theorem diff_identity_counterexample:
  "zipDiffSubset sampleEnv (Val {''a''}) (Val {''a''}) [''a''] (Some [''a'']) = ''A''
   \<and> zipDiffSubset sampleEnv (Val {''a''}) (Val {''a''}) [''a''] (Some [''a'']) \<noteq> []"
  by (simp add: zipDiffSubset_def subsetRanges_def flushRun_def sampleEnv_def
      sample_nToId_small ZBASE64ABC_def)



section \<open>The hydration of the state\<close>

lemma bindE_Inr_iff: "bindE m f = Inr y \<longleftrightarrow> (\<exists>x. m = Inr x \<and> f x = Inr y)"
  by (cases m) (simp_all add: bindE_def)

lemma bindE_Inl [simp]: "bindE (Inl e) f = Inl e"
  by (simp add: bindE_def)

lemma bindE_Inr [simp]: "bindE (Inr x) f = f x"
  by (simp add: bindE_def)

lemma decodeState_steps:
  assumes "decodeState E S m ps = Inr st"
  shows "\<exists>ps' useHash h ms bs os is rs cs ss.
      (case get ps (QZip E) of
         Val z \<Rightarrow> (\<exists>zip. inflate S z = Inr zip \<and> ps' = parseQuery S zip \<and> useHash = Some h)
       | _ \<Rightarrow> ps' = ps \<and> useHash = None)
      \<and> requestData S (if m = [] then initialModId S else m) = Inr h
      \<and> unzipModules S ps' useHash = Inr ms
      \<and> unzipBeacons S ps' ms useHash = Inr bs
      \<and> unzipObjectivesStep S ps' ms bs useHash = Inr os
      \<and> unzipItems S ps' useHash = Inr is
      \<and> unzipRecipes S ps' ms bs useHash = Inr rs
      \<and> unzipMachines S ps' ms bs useHash = Inr cs
      \<and> unzipSettings S m ps' bs (objectiveIds S os) h useHash = Inr ss
      \<and> st = prune S \<lparr>objectivesState = os, itemsState = is, recipesState = rs,
                       machinesState = cs, settingsState = ss\<rparr>"
  using assms unfolding decodeState_def
  by (auto simp: bindE_Inr_iff Let_def split: nullable.splits prod.splits)

text \<open>
  C9. A state is dispatched only when the whole \<open>try\<close> block has produced it, which
  requires the decompression, the request of the data and every decoder to have
  succeeded. When any of them throws, \<open>updateState\<close> logs the error, rejects with its own
  error and dispatches nothing; in every case the last thing it does is to fire
  \<open>ready$\<close>.
\<close>

theorem updateState_atomic:
  "(Dispatch st \<in> set (snd (updateState E S modId ps)) \<longrightarrow>
      (\<exists>m. modId = Val m \<and> decodeState E S m ps = Inr st))
   \<and> last (snd (updateState E S modId ps)) = Ready
   \<and> (modId = Val m \<and> paramKeys S ps \<noteq> [] \<and> decodeState E S m ps = Inl err \<longrightarrow>
        updateState E S modId ps = (Inl ParseUrlError, [ConsoleError err, Ready]))
   \<and> (get ps (QZip E) = Val z \<and> inflate S z = Inl err \<longrightarrow> decodeState E S m ps = Inl err)
   \<and> (decodeState E S m ps = Inr st \<longrightarrow>
        (\<exists>ps' useHash h ms bs os is rs cs ss.
           (case get ps (QZip E) of
              Val z \<Rightarrow> (\<exists>zip. inflate S z = Inr zip \<and> ps' = parseQuery S zip \<and> useHash = Some h)
            | _ \<Rightarrow> ps' = ps \<and> useHash = None)
         \<and> requestData S (if m = [] then initialModId S else m) = Inr h
         \<and> unzipModules S ps' useHash = Inr ms
         \<and> unzipBeacons S ps' ms useHash = Inr bs
         \<and> unzipObjectivesStep S ps' ms bs useHash = Inr os
         \<and> unzipItems S ps' useHash = Inr is
         \<and> unzipRecipes S ps' ms bs useHash = Inr rs
         \<and> unzipMachines S ps' ms bs useHash = Inr cs
         \<and> unzipSettings S m ps' bs (objectiveIds S os) h useHash = Inr ss
         \<and> st = prune S \<lparr>objectivesState = os, itemsState = is, recipesState = rs,
                          machinesState = cs, settingsState = ss\<rparr>))"
proof -
  have a: "\<exists>m. modId = Val m \<and> decodeState E S m ps = Inr st"
    if "Dispatch st \<in> set (snd (updateState E S modId ps))"
    using that
    by (cases modId)
      (auto simp: updateState_def dispatch_def Let_def split: if_splits sum.splits)
  have b: "last (snd (updateState E S modId ps)) = Ready"
    by (cases modId)
      (auto simp: updateState_def dispatch_def Let_def split: if_splits sum.splits)
  have c: "updateState E S modId ps = (Inl ParseUrlError, [ConsoleError err, Ready])"
    if "modId = Val m" "paramKeys S ps \<noteq> []" "decodeState E S m ps = Inl err"
    using that by (simp add: updateState_def)
  have d: "decodeState E S m ps = Inl err" if "get ps (QZip E) = Val z" "inflate S z = Inl err"
    using that by (simp add: decodeState_def)
  note e = decodeState_steps [of E S m ps st]
  from a b c d e show ?thesis by blast
qed

theorem updateState_atomic_witness:
  "get [(''z'', ''eJw''), (''v'', ''11'')] (QZip sampleEnv) = Val ''eJw''
   \<and> inflate (sampleSteps (Inl InflateError)) ''eJw'' = Inl InflateError
   \<and> paramKeys (sampleSteps (Inl InflateError)) [(''z'', ''eJw''), (''v'', ''11'')] \<noteq> []
   \<and> updateState sampleEnv (sampleSteps (Inl InflateError)) (Val ''1.1'')
        [(''z'', ''eJw''), (''v'', ''11'')]
       = (Inl ParseUrlError, [ConsoleError InflateError, Ready])
   \<and> decodeState sampleEnv (sampleSteps (Inl InflateError)) ''1.1''
        [(''o'', ''iron-plate*x''), (''v'', ''11'')] = Inl RationalError
   \<and> updateState sampleEnv (sampleSteps (Inl InflateError)) (Val ''1.1'')
        [(''o'', ''iron-plate*x''), (''v'', ''11'')]
       = (Inl ParseUrlError, [ConsoleError RationalError, Ready])"
proof -
  let ?ps = "[(''z'', ''eJw''), (''v'', ''11'')]"
  let ?qs = "[(''o'', ''iron-plate*x''), (''v'', ''11'')]"
  let ?S = "sampleSteps (Inl InflateError)"
  let ?st = "\<lparr>objectivesState = Undefined, itemsState = (), recipesState = (),
      machinesState = (), settingsState = ()\<rparr>"
  have g: "get ?ps (QZip sampleEnv) = Val ''eJw''" by (simp add: get_def getAll_def sampleEnv_def)
  have i: "inflate ?S ''eJw'' = Inl InflateError" by (simp add: sampleSteps_def)
  have k: "paramKeys ?S ?ps \<noteq> []" by (simp add: sampleSteps_def)
  have k': "paramKeys ?S ?qs \<noteq> []" by (simp add: sampleSteps_def)
  note t = updateState_atomic [where E = sampleEnv and S = ?S and modId = "Val ''1.1''" and ps = ?ps
      and m = "''1.1''" and z = "''eJw''" and err = InflateError and st = ?st]
  from t g i have d: "decodeState sampleEnv ?S ''1.1'' ?ps = Inl InflateError" by blast
  from t d k have u: "updateState sampleEnv ?S (Val ''1.1'') ?ps
      = (Inl ParseUrlError, [ConsoleError InflateError, Ready])" by blast
  have o: "unzipObjectives sampleEnv ?qs [] [] None = Inl RationalError"
    by (simp add: unzipObjectives_def getAll_def unzipObjective_def bindE_def at_index_def
        parseRational_def absent_def sampleEnv_def sample_rational_def)
  have d': "decodeState sampleEnv ?S ''1.1'' ?qs = Inl RationalError"
    using o by (simp add: decodeState_def sampleSteps_def get_def getAll_def) (simp add: sampleEnv_def)
  note t' = updateState_atomic [where E = sampleEnv and S = ?S and modId = "Val ''1.1''" and ps = ?qs
      and m = "''1.1''" and z = "''eJw''" and err = RationalError and st = ?st]
  from t' d' k' have u': "updateState sampleEnv ?S (Val ''1.1'') ?qs
      = (Inl ParseUrlError, [ConsoleError RationalError, Ready])" by blast
  from g i k u d' u' show ?thesis by (intro conjI)
qed

section \<open>The record of an objective\<close>

lemma stripStars_snoc_star: "stripStars (x @ [CHR ''*'']) = stripStars x"
  by (simp add: stripStars_def)

lemma stripStars_no_trailing: "x = [] \<or> last x \<noteq> CHR ''*'' \<Longrightarrow> stripStars x = x"
  by (cases x rule: rev_cases) (simp_all add: stripStars_def)

lemma stripStars_star_free: "CHR ''*'' \<notin> set x \<Longrightarrow> stripStars x = x"
  by (rule stripStars_no_trailing) (cases x rule: rev_cases, auto)

lemma join_sep_snoc: "fs \<noteq> [] \<Longrightarrow> join_sep c (fs @ [f]) = join_sep c fs @ c # f"
  by (induction c fs rule: join_sep.induct) simp_all

lemma split_zipFields:
  assumes "fs \<noteq> []" "\<forall>f\<in>set fs. CHR ''*'' \<notin> set f"
  shows "at_index (split_sep (CHR ''*'') (stripStars (join_sep (CHR ''*'') fs))) k = Undefined
       \<or> (k < length fs
          \<and> at_index (split_sep (CHR ''*'') (stripStars (join_sep (CHR ''*'') fs))) k = Val (fs ! k))"
  using assms
proof (induction fs rule: rev_nonempty_induct)
  case (single x)
  then have "stripStars x = x" by (simp add: stripStars_star_free)
  with single show ?case by (cases k) (simp_all add: split_sep_no_sep at_index_def)
next
  case (snoc x xs)
  have j: "join_sep (CHR ''*'') (xs @ [x]) = join_sep (CHR ''*'') xs @ CHR ''*'' # x"
    using snoc.hyps(1) by (rule join_sep_snoc)
  show ?case
  proof (cases "x = []")
    case True
    have "stripStars (join_sep (CHR ''*'') (xs @ [x])) = stripStars (join_sep (CHR ''*'') xs)"
      using j stripStars_snoc_star [of "join_sep (CHR ''*'') xs"] by (simp add: True)
    moreover from snoc.IH snoc.prems
    have "at_index (split_sep (CHR ''*'') (stripStars (join_sep (CHR ''*'') xs))) k = Undefined
       \<or> (k < length xs
          \<and> at_index (split_sep (CHR ''*'') (stripStars (join_sep (CHR ''*'') xs))) k = Val (xs ! k))"
      by simp
    ultimately show ?thesis by (auto simp: nth_append)
  next
    case False
    from snoc.prems have xf: "CHR ''*'' \<notin> set x" by simp
    with False have "last x \<noteq> CHR ''*''" using last_in_set by metis
    then have "last (join_sep (CHR ''*'') (xs @ [x])) \<noteq> CHR ''*''"
      unfolding j using False by simp
    then have "stripStars (join_sep (CHR ''*'') (xs @ [x])) = join_sep (CHR ''*'') (xs @ [x])"
      by (simp add: stripStars_no_trailing)
    moreover have "split_sep (CHR ''*'') (join_sep (CHR ''*'') (xs @ [x])) = xs @ [x]"
      using snoc.prems by (intro split_join) simp_all
    ultimately show ?thesis by (simp add: at_index_def)
  qed
qed

lemma parse_empty_field:
  assumes "v = Undefined \<or> v = Val []"
  shows "parseRational E v = Inr Undefined" "parseNumber E v False = Undefined"
  using assms by (auto simp: parseRational_def parseNumber_def absent_def)

lemma unzip_defaults:
  assumes sep: "ZFIELDSEP E = CHR ''*''"
    and len: "length fs = 9" and e: "fs ! 1 = []" "fs ! 2 = []" "fs ! 3 = []"
    and sf: "\<forall>f\<in>set fs. CHR ''*'' \<notin> set f"
    and oc: "\<exists>q. parseRational E (Val (fs ! 7)) = Inr q"
  shows "\<exists>o'. unzipObjective E ms bs hashArg idx (zipFields E fs) = Inr o'
       \<and> o_value o' = 1 \<and> o_unit o' = ObjectiveUnit_Items E \<and> o_type o' = ObjectiveType_Output E"
proof -
  let ?s = "split_sep (CHR ''*'') (stripStars (join_sep (CHR ''*'') fs))"
  from len have ne: "fs \<noteq> []" by auto
  note sp = split_zipFields [OF ne sf]
  have f1: "at_index ?s 1 = Undefined \<or> at_index ?s 1 = Val []" using sp [of 1] e by auto
  have f2: "at_index ?s 2 = Undefined \<or> at_index ?s 2 = Val []" using sp [of 2] e by auto
  have f3: "at_index ?s 3 = Undefined \<or> at_index ?s 3 = Val []" using sp [of 3] e by auto
  have f7: "at_index ?s 7 = Undefined \<or> at_index ?s 7 = Val (fs ! 7)" using sp [of 7] by auto
  from f7 oc obtain q where q: "parseRational E (at_index ?s 7) = Inr q"
    by (auto simp: parseRational_def)
  show ?thesis
    unfolding unzipObjective_def zipFields_def sep Let_def
    using parse_empty_field [OF f1, of E] parse_empty_field [OF f2, of E]
      parse_empty_field [OF f3, of E] q
    by (cases hashArg) (simp_all add: bindE_def)
qed


lemma zip_absent:
  "isNullish v \<Longrightarrow> zipString v = []"
  "isNullish a \<Longrightarrow> zipArray E (numTexts E a) = []"
  "isNullish r \<Longrightarrow> zipNumber E (ratNum r) = []"
  by (cases v, simp_all add: zipString_def) (cases a, simp_all add: zipArray_def numTexts_def,
      cases r, simp_all add: zipNumber_def ratNum_def)

lemma default_subfields:
  assumes "o_value obj = 1" "o_unit obj = ObjectiveUnit_Items E" "o_type obj = ObjectiveType_Output E"
  shows "zValue E obj = []" "zUnit E obj = []" "zType E obj = []"
  using assms by (simp_all add: zValue_def zUnit_def zType_def zipDiffRational_def zipDiffNumber_def)

lemma overclock_parses:
  assumes "\<forall>r. overclock obj = Val r \<longrightarrow> (\<exists>q. rational E (ratToString E r) = Inr q)"
  shows "\<exists>q. parseRational E (Val (zipNumber E (ratNum (overclock obj)))) = Inr q"
proof (cases "overclock obj")
  case (Val r)
  with assms obtain q where "rational E (ratToString E r) = Inr q" by auto
  with Val show ?thesis by (simp add: parseRational_def zipNumber_def ratNum_def)
qed (simp_all add: parseRational_def zipNumber_def ratNum_def absent_def)

lemma stripStars_trailing8: "CHR ''*'' \<notin> set t \<Longrightarrow> stripStars (t @ ''********'') = t"
proof -
  assume t: "CHR ''*'' \<notin> set t"
  have "stripStars (t @ ''********'') = stripStars t"
    by (simp add: stripStars_def)
  with t show ?thesis by (simp add: stripStars_star_free)
qed

text \<open>
  C6 (as amended). Let the field separator be \<open>*\<close>, the character that \<open>zipFields\<close>
  strips. An objective whose value, unit and type equal their defaults (1, Items,
  Output) encodes the three sub-fields as empty strings. \<open>unzipObjective\<close>, parsing its
  bare or its hashed record back, fills all three with the defaults, provided no sub-field
  holds a \<open>*\<close> and the text of an overclock parses. When the machine, the modules, the
  beacons, the overclock and the fuel of the objective are absent as well, \<open>zipFields\<close>
  trims every trailing empty sub-field away, the three among them: the bare record is
  the target id alone, and \<open>unzipObjectives\<close> returns the one objective with the
  defaults.
\<close>

theorem default_objective:
  assumes sep: "ZFIELDSEP E = CHR ''*''"
    and dflt: "o_value obj = 1" "o_unit obj = ObjectiveUnit_Items E"
      "o_type obj = ObjectiveType_Output E"
  shows "zValue E obj = [] \<and> zUnit E obj = [] \<and> zType E obj = []
   \<and> ((\<forall>f\<in>set (bareFields E data obj). CHR ''*'' \<notin> set f)
        \<and> (\<forall>r. overclock obj = Val r \<longrightarrow> (\<exists>q. rational E (ratToString E r) = Inr q)) \<longrightarrow>
       (\<exists>o'. unzipObjective E ms bs None idx (bareRecord E data obj) = Inr o'
          \<and> o_value o' = 1 \<and> o_unit o' = ObjectiveUnit_Items E
          \<and> o_type o' = ObjectiveType_Output E))
   \<and> ((\<forall>f\<in>set (hashFields E data modHash obj). CHR ''*'' \<notin> set f)
        \<and> (\<forall>r. overclock obj = Val r \<longrightarrow> (\<exists>q. rational E (ratToString E r) = Inr q)) \<longrightarrow>
       (\<exists>o'. unzipObjective E ms bs (Some modHash) idx (hashRecord E data modHash obj) = Inr o'
          \<and> o_value o' = 1 \<and> o_unit o' = ObjectiveUnit_Items E
          \<and> o_type o' = ObjectiveType_Output E))
   \<and> (CHR ''*'' \<notin> set (targetId obj) \<and> isNullish (machineId obj)
        \<and> isNullish (moduleMap (objectiveSettings data) (o_id obj))
        \<and> isNullish (beaconMap (objectiveSettings data) (o_id obj))
        \<and> isNullish (overclock obj) \<and> isNullish (fuelId obj) \<longrightarrow>
       bareRecord E data obj = targetId obj
       \<and> unzipObjectives E [(QObjective E, bareRecord E data obj)] ms bs None
           = Inr (Val \<lparr>ids = [numToString E 1], index = 2,
                entities = [numToString E 1 \<mapsto>
                  \<lparr>o_id = numToString E 1, targetId = targetId obj, o_value = 1,
                   o_unit = ObjectiveUnit_Items E, o_type = ObjectiveType_Output E,
                   machineId = Undefined, modules = Undefined, beacons = Undefined,
                   overclock = Undefined, fuelId = Undefined\<rparr>]\<rparr>))"
proof -
  note sub = default_subfields [OF dflt]
  have bare: "\<exists>o'. unzipObjective E ms bs None idx (bareRecord E data obj) = Inr o'
          \<and> o_value o' = 1 \<and> o_unit o' = ObjectiveUnit_Items E
          \<and> o_type o' = ObjectiveType_Output E"
    if sf: "\<forall>f\<in>set (bareFields E data obj). CHR ''*'' \<notin> set f"
      and oc: "\<forall>r. overclock obj = Val r \<longrightarrow> (\<exists>q. rational E (ratToString E r) = Inr q)"
  proof -
    have "\<exists>q. parseRational E (Val (bareFields E data obj ! 7)) = Inr q"
      using overclock_parses [OF oc] by (simp add: bareFields_def)
    then show ?thesis
      unfolding bareRecord_def
      by (intro unzip_defaults [OF sep _ _ _ _ sf]) (simp_all add: bareFields_def sub)
  qed
  have hashed: "\<exists>o'. unzipObjective E ms bs (Some modHash) idx (hashRecord E data modHash obj) = Inr o'
          \<and> o_value o' = 1 \<and> o_unit o' = ObjectiveUnit_Items E
          \<and> o_type o' = ObjectiveType_Output E"
    if sf: "\<forall>f\<in>set (hashFields E data modHash obj). CHR ''*'' \<notin> set f"
      and oc: "\<forall>r. overclock obj = Val r \<longrightarrow> (\<exists>q. rational E (ratToString E r) = Inr q)"
  proof -
    have "\<exists>q. parseRational E (Val (hashFields E data modHash obj ! 7)) = Inr q"
      using overclock_parses [OF oc] by (simp add: hashFields_def)
    then show ?thesis
      unfolding hashRecord_def
      by (intro unzip_defaults [OF sep _ _ _ _ sf]) (simp_all add: hashFields_def sub)
  qed
  have alone: "bareRecord E data obj = targetId obj
       \<and> unzipObjectives E [(QObjective E, bareRecord E data obj)] ms bs None
           = Inr (Val \<lparr>ids = [numToString E 1], index = 2,
                entities = [numToString E 1 \<mapsto>
                  \<lparr>o_id = numToString E 1, targetId = targetId obj, o_value = 1,
                   o_unit = ObjectiveUnit_Items E, o_type = ObjectiveType_Output E,
                   machineId = Undefined, modules = Undefined, beacons = Undefined,
                   overclock = Undefined, fuelId = Undefined\<rparr>]\<rparr>)"
    if t: "CHR ''*'' \<notin> set (targetId obj)" and n: "isNullish (machineId obj)"
      "isNullish (moduleMap (objectiveSettings data) (o_id obj))"
      "isNullish (beaconMap (objectiveSettings data) (o_id obj))"
      "isNullish (overclock obj)" "isNullish (fuelId obj)"
  proof -
    have f: "bareFields E data obj = [targetId obj, [], [], [], [], [], [], [], []]"
      using n by (simp add: bareFields_def sub zip_absent)
    have r: "bareRecord E data obj = targetId obj"
      using stripStars_trailing8 [OF t] by (simp add: bareRecord_def zipFields_def f sep)
    have s: "split_sep (ZFIELDSEP E) (targetId obj) = [targetId obj]"
      using t by (simp add: sep split_sep_no_sep)
    have u: "unzipObjective E ms bs None (Suc 0) (targetId obj)
        = Inr \<lparr>o_id = numToString E 1, targetId = targetId obj, o_value = 1,
                   o_unit = ObjectiveUnit_Items E, o_type = ObjectiveType_Output E,
                   machineId = Undefined, modules = Undefined, beacons = Undefined,
                   overclock = Undefined, fuelId = Undefined\<rparr>"
      by (simp add: unzipObjective_def s at_index_def parseRational_def parseNumber_def
          parseString_def parseStringBare_def parseArray_def parseArrayBare_def absent_def
          mapArray_def bindE_def)
    have "unzipObjectives E [(QObjective E, targetId obj)] ms bs None
           = Inr (Val \<lparr>ids = [numToString E 1], index = 2,
                entities = [numToString E 1 \<mapsto>
                  \<lparr>o_id = numToString E 1, targetId = targetId obj, o_value = 1,
                   o_unit = ObjectiveUnit_Items E, o_type = ObjectiveType_Output E,
                   machineId = Undefined, modules = Undefined, beacons = Undefined,
                   overclock = Undefined, fuelId = Undefined\<rparr>]\<rparr>)"
      by (simp add: unzipObjectives_def getAll_def u bindE_def)
    with r show ?thesis by simp
  qed
  from sub bare hashed alone show ?thesis by blast
qed


lemmas sample_record_defs = bareRecord_def bareFields_def zipFields_def stripStars_def
  zValue_def zUnit_def zType_def zipDiffRational_def zipDiffNumber_def zipString_def zipArray_def
  zipNumber_def numTexts_def ratNum_def plainObjective_def oneObjective_def noSettings_def
  sampleEnv_def

lemma sample_text_150: "ratToString sampleEnv 150 = ''150''"
  by (simp add: sampleEnv_def sample_ratToString_def sample_numToString_def digit_string.simps)

lemma sample_rational_150: "rational sampleEnv ''150'' = Inr 150"
  by (simp add: sampleEnv_def sample_rational_def sample_Number_def sample_digits_def)

lemma sample_numToString_1: "numToString sampleEnv 1 = ''1''"
  by (simp add: sampleEnv_def sample_numToString_def digit_string.simps)

theorem default_objective_witness:
  "ZFIELDSEP sampleEnv = CHR ''*''
   \<and> o_value (plainObjective ''iron-plate'') = 1
   \<and> o_unit (plainObjective ''iron-plate'') = ObjectiveUnit_Items sampleEnv
   \<and> o_type (plainObjective ''iron-plate'') = ObjectiveType_Output sampleEnv
   \<and> CHR ''*'' \<notin> set (targetId (plainObjective ''iron-plate''))
   \<and> bareRecord sampleEnv oneObjective (plainObjective ''iron-plate'') = ''iron-plate''
   \<and> unzipObjectives sampleEnv [(''o'', ''iron-plate'')] [] [] None
       = Inr (Val \<lparr>ids = [''1''], index = 2,
            entities = [''1'' \<mapsto> plainObjective ''iron-plate'']\<rparr>)
   \<and> hashRecord sampleEnv oneObjective oneMachine (plainObjective ''iron-plate'') = ''A''
   \<and> (\<exists>o'. unzipObjective sampleEnv [] [] (Some oneMachine) 1 ''A'' = Inr o'
          \<and> o_value o' = 1 \<and> o_unit o' = ObjectiveUnit_Items sampleEnv
          \<and> o_type o' = ObjectiveType_Output sampleEnv)
   \<and> bareRecord sampleEnv oneObjective
        (plainObjective ''iron-plate''\<lparr>machineId := Val ''assembling-machine-2'', overclock := Val 150\<rparr>)
       = ''iron-plate****assembling-machine-2***150''
   \<and> rational sampleEnv (ratToString sampleEnv 150) = Inr 150
   \<and> (\<exists>o'. unzipObjective sampleEnv [] [] None 1 ''iron-plate****assembling-machine-2***150'' = Inr o'
          \<and> o_value o' = 1 \<and> o_unit o' = ObjectiveUnit_Items sampleEnv
          \<and> o_type o' = ObjectiveType_Output sampleEnv)"
proof -
  let ?p = "plainObjective ''iron-plate''"
  let ?q = "plainObjective ''iron-plate''\<lparr>machineId := Val ''assembling-machine-2'', overclock := Val 150\<rparr>"
  have sep: "ZFIELDSEP sampleEnv = CHR ''*''" by (simp add: sampleEnv_def)
  have dp: "o_value ?p = 1" "o_unit ?p = ObjectiveUnit_Items sampleEnv"
    "o_type ?p = ObjectiveType_Output sampleEnv"
    by (simp_all add: plainObjective_def sampleEnv_def)
  have dq: "o_value ?q = 1" "o_unit ?q = ObjectiveUnit_Items sampleEnv"
    "o_type ?q = ObjectiveType_Output sampleEnv"
    by (simp_all add: plainObjective_def sampleEnv_def)
  have t: "CHR ''*'' \<notin> set (targetId ?p)" by (simp add: plainObjective_def)
  have n: "isNullish (machineId ?p)" "isNullish (moduleMap (objectiveSettings oneObjective) (o_id ?p))"
    "isNullish (beaconMap (objectiveSettings oneObjective) (o_id ?p))"
    "isNullish (overclock ?p)" "isNullish (fuelId ?p)"
    by (simp_all add: plainObjective_def oneObjective_def noSettings_def)
  note a = default_objective [OF sep dp, where data = oneObjective and ms = "[]" and bs = "[]"
      and idx = 1 and modHash = oneMachine]
  from a t n have r: "bareRecord sampleEnv oneObjective ?p = targetId ?p" by blast
  then have r': "bareRecord sampleEnv oneObjective ?p = ''iron-plate''" by (simp add: plainObjective_def)
  from a t n have "unzipObjectives sampleEnv [(QObjective sampleEnv, bareRecord sampleEnv oneObjective ?p)]
      [] [] None
     = Inr (Val \<lparr>ids = [numToString sampleEnv 1], index = 2,
          entities = [numToString sampleEnv 1 \<mapsto>
            \<lparr>o_id = numToString sampleEnv 1, targetId = targetId ?p, o_value = 1,
             o_unit = ObjectiveUnit_Items sampleEnv, o_type = ObjectiveType_Output sampleEnv,
             machineId = Undefined, modules = Undefined, beacons = Undefined,
             overclock = Undefined, fuelId = Undefined\<rparr>]\<rparr>)"
    by blast
  moreover have "\<lparr>o_id = numToString sampleEnv 1, targetId = targetId ?p, o_value = 1,
             o_unit = ObjectiveUnit_Items sampleEnv, o_type = ObjectiveType_Output sampleEnv,
             machineId = Undefined, modules = Undefined, beacons = Undefined,
             overclock = Undefined, fuelId = Undefined\<rparr> = ?p"
    by (simp add: sample_numToString_1) (simp add: plainObjective_def sampleEnv_def)
  moreover have "QObjective sampleEnv = ''o''" by (simp add: sampleEnv_def)
  ultimately have u: "unzipObjectives sampleEnv [(''o'', ''iron-plate'')] [] [] None
       = Inr (Val \<lparr>ids = [''1''], index = 2, entities = [''1'' \<mapsto> ?p]\<rparr>)"
    by (simp add: r' sample_numToString_1)
  have hf: "hashFields sampleEnv oneObjective oneMachine ?p = [''A'', [], [], [], [], [], [], [], []]"
    by (simp add: hashFields_def zipNString_def
        zValue_def zUnit_def zType_def zipDiffRational_def zipDiffNumber_def zipArray_def
        zipNumber_def numTexts_def ratNum_def plainObjective_def oneObjective_def noSettings_def
        oneMachine_def)
      (simp add: sampleEnv_def sample_nToId_small ZBASE64ABC_def)
  have hr: "hashRecord sampleEnv oneObjective oneMachine ?p = ''A''"
    by (simp add: hashRecord_def zipFields_def stripStars_def hf sep)
  have hsf: "\<forall>f\<in>set (hashFields sampleEnv oneObjective oneMachine ?p). CHR ''*'' \<notin> set f"
    unfolding hf by simp
  have hoc: "\<forall>r. overclock ?p = Val r \<longrightarrow> (\<exists>x. rational sampleEnv (ratToString sampleEnv r) = Inr x)"
    by (simp add: plainObjective_def)
  from a hsf hoc have "\<exists>o'. unzipObjective sampleEnv [] [] (Some oneMachine) 1
            (hashRecord sampleEnv oneObjective oneMachine ?p) = Inr o'
          \<and> o_value o' = 1 \<and> o_unit o' = ObjectiveUnit_Items sampleEnv
          \<and> o_type o' = ObjectiveType_Output sampleEnv"
    by blast
  then have he: "\<exists>o'. unzipObjective sampleEnv [] [] (Some oneMachine) 1 ''A'' = Inr o'
          \<and> o_value o' = 1 \<and> o_unit o' = ObjectiveUnit_Items sampleEnv
          \<and> o_type o' = ObjectiveType_Output sampleEnv"
    unfolding hr .
  have bq: "bareRecord sampleEnv oneObjective ?q = ''iron-plate****assembling-machine-2***150''"
    using sample_text_150 by (simp add: bareRecord_def bareFields_def zipFields_def stripStars_def
        zValue_def zUnit_def zType_def zipDiffRational_def zipDiffNumber_def zipString_def zipArray_def
        zipNumber_def numTexts_def ratNum_def plainObjective_def oneObjective_def noSettings_def sep)
      (simp add: sampleEnv_def)
  have rq: "rational sampleEnv (ratToString sampleEnv 150) = Inr 150"
    by (simp add: sample_text_150 sample_rational_150)
  have sf: "\<forall>f\<in>set (bareFields sampleEnv oneObjective ?q). CHR ''*'' \<notin> set f"
    using sample_text_150 by (simp add: bareFields_def
        zValue_def zUnit_def zType_def zipDiffRational_def zipDiffNumber_def zipString_def zipArray_def
        zipNumber_def numTexts_def ratNum_def plainObjective_def oneObjective_def noSettings_def)
      (simp add: sampleEnv_def)
  have oc: "\<forall>r. overclock ?q = Val r \<longrightarrow> (\<exists>x. rational sampleEnv (ratToString sampleEnv r) = Inr x)"
    using rq by (simp add: plainObjective_def)
  note b = default_objective [OF sep dq, where data = oneObjective and ms = "[]" and bs = "[]"
      and idx = 1 and modHash = "\<lparr>mh_items = [], mh_recipes = [], mh_machines = [], mh_fuels = []\<rparr>"]
  from b sf oc have "\<exists>o'. unzipObjective sampleEnv [] [] None 1 (bareRecord sampleEnv oneObjective ?q) = Inr o'
          \<and> o_value o' = 1 \<and> o_unit o' = ObjectiveUnit_Items sampleEnv
          \<and> o_type o' = ObjectiveType_Output sampleEnv"
    by blast
  then have e: "\<exists>o'. unzipObjective sampleEnv [] [] None 1 ''iron-plate****assembling-machine-2***150'' = Inr o'
          \<and> o_value o' = 1 \<and> o_unit o' = ObjectiveUnit_Items sampleEnv
          \<and> o_type o' = ObjectiveType_Output sampleEnv"
    unfolding bq .
  from sep dp t r' u hr he bq rq e show ?thesis by (intro conjI)
qed

text \<open>
  C6 as stated fails: with the default value, unit and type and a fuel, the record keeps
  all nine sub-fields, the three as empty placeholders; nothing is trimmed away.
\<close>

theorem default_objective_counterexample:
  "o_value (plainObjective ''iron-plate''\<lparr>fuelId := Val ''coal''\<rparr>) = 1
   \<and> o_unit (plainObjective ''iron-plate''\<lparr>fuelId := Val ''coal''\<rparr>) = ObjectiveUnit_Items sampleEnv
   \<and> o_type (plainObjective ''iron-plate''\<lparr>fuelId := Val ''coal''\<rparr>) = ObjectiveType_Output sampleEnv
   \<and> bareRecord sampleEnv oneObjective (plainObjective ''iron-plate''\<lparr>fuelId := Val ''coal''\<rparr>)
       = ''iron-plate********coal''
   \<and> split_sep (ZFIELDSEP sampleEnv) ''iron-plate********coal''
       = [''iron-plate'', [], [], [], [], [], [], [], ''coal'']"
  by (simp add: sample_record_defs)


end
